theory Spec2Isabelle
  imports Main
begin

section \<open>The Connext swap client of xud\<close>

text \<open>
  A shallow embedding of \<^verbatim>\<open>ConnextClient\<close> (the third unit of
  \<^verbatim>\<open>src/lib/p2p/packets/OrderPacket.ts\<close>): the adapter that drives one leg of a
  swap against the Connext REST backend.

  \<^item> An \<^verbatim>\<open>async\<close> function returns a promise; its model returns the way the
    promise ends (\<open>Resolved\<close>, \<open>Rejected\<close>, or \<open>Unsettled\<close> when neither
    \<^verbatim>\<open>resolve\<close> nor \<^verbatim>\<open>reject\<close> is ever called) together with the client after
    the call.
  \<^item> The backend is a parameter \<open>net\<close>: what the HTTP exchange of a request ends in.
    Every request handed to \<^verbatim>\<open>http.request\<close> is appended to the field \<open>sent\<close> of the
    client, so that "no network call" reads "\<open>sent\<close> is unchanged".
  \<^item> The logger is not modelled: it writes to an external sink and returns nothing.

  The first unit of the file, \<^verbatim>\<open>OrderPacket\<close>, follows the client: its
  \<^verbatim>\<open>toRaw\<close> and \<^verbatim>\<open>fromRaw\<close> are calls of \<^verbatim>\<open>JSON.stringify\<close> and
  \<^verbatim>\<open>JSON.parse\<close>, which are modelled from the ECMAScript specification.
\<close>

subsection \<open>Values\<close>

text \<open>
  JavaScript truthiness of a \<^verbatim>\<open>string | undefined\<close>: \<^verbatim>\<open>undefined\<close> and the empty
  string are falsy, every other string is truthy.
\<close>

fun truthy :: "string option \<Rightarrow> bool" where
  "truthy None = False"
| "truthy (Some s) = (s \<noteq> [])"

text \<open>\<^verbatim>\<open>s.startsWith('0x')\<close> and \<^verbatim>\<open>s.slice(2)\<close>.\<close>

definition startsWith0x :: "string \<Rightarrow> bool" where
  "startsWith0x s = (take 2 s = ''0x'')"

definition slice2 :: "string \<Rightarrow> string" where
  "slice2 s = drop 2 s"

subsection \<open>Numbers and their text\<close>

text \<open>
  A JavaScript string is a sequence of UTF-16 code units; the texts that the number
  and JSON functions read and write are lists of code units, written as numbers
  (48 to 57 are the digits, 45 the minus sign, 46 the point, 101 the letter e).
\<close>

type_synonym units = "nat list"

definition isDigit :: "nat \<Rightarrow> bool" where
  "isDigit c = (48 \<le> c \<and> c \<le> 57)"

text \<open>The decimal digits of a natural number, most significant first.\<close>

function digitsOf :: "nat \<Rightarrow> units" where
  "digitsOf n = (if n < 10 then [48 + n] else digitsOf (n div 10) @ [48 + n mod 10])"
  by pat_completeness auto
termination
  by (relation "measure id") auto

text \<open>
  A JavaScript number. \<^verbatim>\<open>Number::toString\<close> prints a finite number \<open>x\<close> from the
  integers \<open>s\<close>, \<open>k\<close> and \<open>n\<close> with \<open>s\<close> of \<open>k\<close> digits, \<open>k\<close> as small as
  possible, such that \<open>s \<times> 10^(n - k)\<close> is \<open>x\<close>: the shortest decimal that rounds to
  \<open>x\<close>. The model holds a finite number as that decimal: \<open>Finite m e\<close> is
  \<open>m \<times> 10^e\<close>, and it is canonical when \<open>m\<close> has no trailing zero (and \<open>e = 0\<close>
  for zero), which makes \<open>m\<close> the \<open>s\<close> of the specification, signed. The rounding
  of a decimal to a double is not modelled, so a decimal that no double prints
  stands for no number; the two zeros are one.
\<close>

datatype number = Finite int int | NaN | PosInfinity | NegInfinity

fun isFinite :: "number \<Rightarrow> bool" where
  "isFinite (Finite m e) = True"
| "isFinite x = False"

function normalise :: "int \<Rightarrow> int \<Rightarrow> int \<times> int" where
  "normalise m e =
     (if m = 0 then (0, 0)
      else if 10 dvd m then normalise (m div 10) (e + 1)
      else (m, e))"
  by pat_completeness auto
termination
  by (relation "measure (\<lambda>(m, e). nat \<bar>m\<bar>)") auto

fun canonical :: "number \<Rightarrow> bool" where
  "canonical (Finite m e) = (if m = 0 then e = 0 else \<not> 10 dvd m)"
| "canonical x = True"

text \<open>
  The cases of \<^verbatim>\<open>Number::toString\<close> for the digits \<open>ds\<close> of \<open>s\<close> (there are
  \<open>k\<close> of them) and \<open>n\<close>: the digits followed by \<open>n - k\<close> zeros when
  \<open>k \<le> n \<le> 21\<close>; a point after the first \<open>n\<close> digits when \<open>0 < n \<le> 21\<close>;
  \<^verbatim>\<open>0.\<close>, \<open>- n\<close> zeros and the digits when \<open>- 6 < n \<le> 0\<close>; otherwise the
  exponent form, with a point after the first digit when there are more, the
  letter e, the sign of \<open>n - 1\<close> and its digits.
\<close>

definition printDecimal :: "units \<Rightarrow> int \<Rightarrow> units" where
  "printDecimal ds n =
     (if int (length ds) \<le> n \<and> n \<le> 21
        then ds @ replicate (nat (n - int (length ds))) 48
      else if 0 < n \<and> n \<le> 21
        then take (nat n) ds @ 46 # drop (nat n) ds
      else if - 6 < n \<and> n \<le> 0
        then 48 # 46 # replicate (nat (- n)) 48 @ ds
      else (if length ds = 1 then ds else hd ds # 46 # tl ds)
             @ 101 # (if n - 1 < 0 then 45 else 43) # digitsOf (nat \<bar>n - 1\<bar>))"

text \<open>
  \<^verbatim>\<open>Number::toString\<close>: \<^verbatim>\<open>NaN\<close>, \<^verbatim>\<open>Infinity\<close>, \<^verbatim>\<open>-Infinity\<close>, \<^verbatim>\<open>0\<close>, or
  the sign and the decimal of the canonical form.
\<close>

fun numberToString :: "number \<Rightarrow> units" where
  "numberToString (Finite m e) =
     (case normalise m e of (s, x) \<Rightarrow>
        if s = 0 then [48]
        else (if s < 0 then [45] else [])
               @ printDecimal (digitsOf (nat \<bar>s\<bar>)) (int (length (digitsOf (nat \<bar>s\<bar>))) + x))"
| "numberToString NaN = [78, 97, 78]"
| "numberToString PosInfinity = [73, 110, 102, 105, 110, 105, 116, 121]"
| "numberToString NegInfinity = [45, 73, 110, 102, 105, 110, 105, 116, 121]"

text \<open>
  The template literal \<^verbatim>\<open>`${amount}`\<close> of a number: \<^verbatim>\<open>Number::toString\<close>, as a
  string of characters (every code unit it prints is ASCII).
\<close>

definition template :: "number \<Rightarrow> string" where
  "template n = map char_of (numberToString n)"

subsection \<open>Enumerations and the deal\<close>

text \<open>
  Modelled from the spec: \<^verbatim>\<open>SwapRole\<close> of \<^verbatim>\<open>../constants/enums\<close> is not under
  src/; section 3 gives a deal the role Maker or Taker.
\<close>

datatype SwapRole = Taker | Maker

text \<open>
  Modelled from the spec: \<^verbatim>\<open>SwapState\<close> of \<^verbatim>\<open>../constants/enums\<close> is not under
  src/; section 4.3 has the states Created, Active, Completed and Failed.
\<close>

datatype SwapState = Created | Active | Completed | Failed

text \<open>
  Modelled from the spec: \<^verbatim>\<open>ClientStatus\<close> of \<^verbatim>\<open>../swaps/SwapClient\<close> is not
  under src/; section 3 lists its four members.
\<close>

datatype ClientStatus = NotInitialized | Initialized | ConnectionVerified | Disconnected

text \<open>
  Modelled from the spec: \<^verbatim>\<open>PaymentState\<close> of \<^verbatim>\<open>../swaps/SwapClient\<close> is not
  under src/; section 4.2 lists Pending, Succeeded and Failed.
\<close>

datatype PaymentState = PaymentSucceeded | PaymentFailed | PaymentPending

text \<open>
  Modelled from the spec: \<^verbatim>\<open>SwapDeal\<close> of \<^verbatim>\<open>../swaps/types\<close> is not under src/.
  The record has the fields \<^verbatim>\<open>sendPayment\<close> reads, with the types of section 3;
  a field that may be \<^verbatim>\<open>undefined\<close> is an \<open>option\<close>.
\<close>

record SwapDeal =
  role :: SwapRole
  state :: SwapState
  destination :: "string option"
  rHash :: string
  rPreimage :: "string option"
  makerCurrency :: string
  takerCurrency :: string
  makerUnits :: number
  takerUnits :: number
  makerCltvDelta :: "number option"

subsection \<open>Errors\<close>

text \<open>
  Modelled from the spec: the module \<^verbatim>\<open>./errors\<close> is not under src/. Its
  \<^verbatim>\<open>errorCodes\<close> are taken as pairwise distinct constants, distinct from the codes
  Node gives its own errors, and \<^verbatim>\<open>errors.X\<close> as the error object whose code is
  \<^verbatim>\<open>errorCodes.X\<close> (spec section 7 and 9: an error is a kind with a message).
\<close>

datatype errorCode =
    INSUFFICIENT_BALANCE
  | TIMEOUT
  | UNEXPECTED
  | TOKEN_ADDRESS_NOT_FOUND
  | INVALID_TOKEN_PAYMENT_RESPONSE
  | SERVER_ERROR
  | PAYMENT_NOT_FOUND

text \<open>
  An error of Node itself (the argument of an \<^verbatim>\<open>'error'\<close> listener): its
  \<^verbatim>\<open>code\<close>, such as \<^verbatim>\<open>'ECONNREFUSED'\<close>, when it has one, and its message.
\<close>

record nodeError =
  errCode :: "string option"
  errMessage :: string

text \<open>
  Modelled from the spec: \<^verbatim>\<open>../swaps/errors\<close> is not under src/. Its two
  constructors used here build an error of the named kind around the message they
  are given (\<open>None\<close> for \<^verbatim>\<open>undefined\<close>); by section 9 such an error carries
  its kind and a message.
\<close>

datatype swapErrorKind = UNKNOWN_PAYMENT_ERROR | FINAL_PAYMENT_ERROR

text \<open>
  What \<^verbatim>\<open>err.code\<close> and \<^verbatim>\<open>err.message\<close> evaluate to: a code of Node, of
  \<^verbatim>\<open>./errors\<close> or of \<^verbatim>\<open>../swaps/errors\<close>; a text, the text that \<^verbatim>\<open>./errors\<close>
  gives an error, the text that \<^verbatim>\<open>assert\<close> generates, the text of the
  \<^verbatim>\<open>TypeError\<close> that the engine raises, or the text that \<^verbatim>\<open>../swaps/errors\<close>
  builds around the message it was given.
\<close>

datatype code = NodeCode string | ConnextCode errorCode | SwapCode swapErrorKind

datatype message =
    Text string
  | ErrorsMessage errorCode
  | AssertionMessage
  | TypeErrorMessage
  | SwapMessage swapErrorKind "message option"

text \<open>
  Everything the client throws or rejects with: an object of \<^verbatim>\<open>./errors\<close>, an error
  of Node, the bare value of \<^verbatim>\<open>body.message\<close> (status 409 rejects with it: a
  string, or \<^verbatim>\<open>undefined\<close> when the body has no message), an error of
  \<^verbatim>\<open>../swaps/errors\<close>, the failure of \<^verbatim>\<open>assert\<close>, \<^verbatim>\<open>new Error(text)\<close>, and
  the \<^verbatim>\<open>TypeError\<close> that reading a property of \<^verbatim>\<open>undefined\<close> raises.
\<close>

datatype thrown =
    ConnextError errorCode
  | NodeError nodeError
  | BareString string
  | Undefined
  | SwapError swapErrorKind "message option"
  | AssertionError
  | Error string
  | TypeError

text \<open>
  \<^verbatim>\<open>err.code\<close> and \<^verbatim>\<open>err.message\<close> of a thrown value other than
  \<^verbatim>\<open>undefined\<close>; on \<^verbatim>\<open>undefined\<close> the read itself throws, which
  \<open>sendPaymentCatch\<close> below tests first. A string has neither property.
\<close>

fun codeOf :: "thrown \<Rightarrow> code option" where
  "codeOf (ConnextError e) = Some (ConnextCode e)"
| "codeOf (NodeError n) = map_option NodeCode (errCode n)"
| "codeOf (BareString s) = None"
| "codeOf Undefined = None"
| "codeOf (SwapError k m) = Some (SwapCode k)"
| "codeOf AssertionError = Some (NodeCode ''ERR_ASSERTION'')"
| "codeOf (Error t) = None"
| "codeOf TypeError = None"

fun messageOf :: "thrown \<Rightarrow> message option" where
  "messageOf (ConnextError e) = Some (ErrorsMessage e)"
| "messageOf (NodeError n) = Some (Text (errMessage n))"
| "messageOf (BareString s) = None"
| "messageOf Undefined = None"
| "messageOf (SwapError k m) = Some (SwapMessage k m)"
| "messageOf AssertionError = Some AssertionMessage"
| "messageOf (Error t) = Some (Text t)"
| "messageOf TypeError = Some TypeErrorMessage"

datatype 'a promise = Resolved 'a | Rejected thrown | Unsettled

subsection \<open>Requests, responses and the client\<close>

text \<open>
  The payloads the client posts. \<^verbatim>\<open>TokenPaymentRequest\<close> is the object
  \<^verbatim>\<open>sendPayment\<close> builds: \<^verbatim>\<open>{amount, assetId, lockHash, timelock}\<close>, where
  \<^verbatim>\<open>assetId\<close> (a lookup in the token map) and \<^verbatim>\<open>timelock\<close>
  (\<^verbatim>\<open>deal.makerCltvDelta\<close>) may be \<^verbatim>\<open>undefined\<close>.
\<close>

record TokenPaymentRequest =
  amount :: string
  assetId :: "string option"
  lockHash :: string
  timelock :: "number option"

datatype payload =
    HashLockTransfer TokenPaymentRequest
  | HashLockResolve string

record request =
  endpoint :: string
  httpMethod :: string
  payload :: "payload option"

text \<open>
  Modelled from the spec: the response types of \<^verbatim>\<open>./types\<close> that the client
  names (\<^verbatim>\<open>ConnextErrorResponse\<close>, \<^verbatim>\<open>ConnextTransferResponse\<close>,
  \<^verbatim>\<open>ConnextTransferStatus\<close>, \<^verbatim>\<open>ConnextBalanceResponse\<close>) are not under src/.
  \<^verbatim>\<open>parseResponseBody<T>\<close> reads the parsed JSON at the type its caller names; a
  parsed body is modelled by the fields the client reads from it, at the types of
  spec section 6: the message of a conflict and the preimage of a transfer (each a
  string, or absent, \<^verbatim>\<open>undefined\<close> or \<^verbatim>\<open>null\<close> alike), the status of a lock,
  the free balance.
\<close>

record json =
  message :: "string option"
  preImage :: "string option"
  status :: string
  freeBalance :: string

text \<open>
  What the three listeners of \<^verbatim>\<open>parseResponseBody\<close> see of the body stream: it ends
  and the text parses (\<open>Json\<close>), it emits \<^verbatim>\<open>'error'\<close> (\<open>StreamError\<close>), or it
  ends and \<^verbatim>\<open>JSON.parse\<close> throws (\<open>NotJson\<close>; the empty body of a 204 is such a
  text).
\<close>

datatype bodyStream = Json json | StreamError nodeError | NotJson

record response =
  statusCode :: nat
  stream :: bodyStream

text \<open>
  What \<^verbatim>\<open>http.request\<close> ends in: the request emits \<^verbatim>\<open>'error'\<close>, or the callback
  is called with a response.
\<close>

datatype reply = RequestError nodeError | Response response

type_synonym backend = "request \<Rightarrow> reply"

record client =
  seed :: "string option"
  clientStatus :: ClientStatus
  tokenAddresses :: "string \<rightharpoonup> string"
  emitted :: "string list"
  sent :: "request list"

subsection \<open>The HTTP layer\<close>

text \<open>
  \<^verbatim>\<open>parseResponseBody\<close>: \<^verbatim>\<open>'end'\<close> resolves with \<^verbatim>\<open>JSON.parse(body)\<close>,
  \<^verbatim>\<open>'error'\<close> rejects. When \<^verbatim>\<open>JSON.parse\<close> throws, it throws inside the
  \<^verbatim>\<open>'end'\<close> listener, after the executor of the promise has returned: the
  exception goes to the emitter, \<^verbatim>\<open>resolve\<close> and \<^verbatim>\<open>reject\<close> are never called and
  the promise stays pending.
\<close>

fun parseResponseBody :: "response \<Rightarrow> json promise" where
  "parseResponseBody res =
     (case stream res of
        Json b \<Rightarrow> Resolved b
      | StreamError err \<Rightarrow> Rejected (NodeError err)
      | NotJson \<Rightarrow> Unsettled)"

text \<open>
  Modelled from the spec: \<^verbatim>\<open>setStatus\<close> belongs to the base class
  \<^verbatim>\<open>SwapClient\<close>, not under src/; it stores the status (spec section 3:
  the status is owned by the adapter).
\<close>

definition setStatus :: "ClientStatus \<Rightarrow> client \<Rightarrow> client" where
  "setStatus s c = c\<lparr>clientStatus := s\<rparr>"

definition disconnect :: "client \<Rightarrow> client" where
  "disconnect c = setStatus Disconnected c"

text \<open>
  \<^verbatim>\<open>sendRequest\<close>. The request is written and ended; then either the
  \<^verbatim>\<open>'error'\<close> listener runs (disconnecting on \<^verbatim>\<open>ECONNREFUSED\<close>, then rejecting with
  the error), or the callback switches on the status code. In case 409 the callback
  awaits \<^verbatim>\<open>parseResponseBody\<close> with no handler around it: when that promise rejects
  or stays pending, the callback ends without calling \<^verbatim>\<open>resolve\<close> or
  \<^verbatim>\<open>reject\<close>. When the body parses, the promise is rejected with the value of
  \<^verbatim>\<open>body.message\<close> itself.
\<close>

definition sendRequest ::
  "backend \<Rightarrow> string \<Rightarrow> string \<Rightarrow> payload option \<Rightarrow> client \<Rightarrow> response promise \<times> client" where
  "sendRequest net ep m p c =
     (let rq = \<lparr>endpoint = ep, httpMethod = m, payload = p\<rparr>;
          c' = c\<lparr>sent := sent c @ [rq]\<rparr>
      in case net rq of
           RequestError err \<Rightarrow>
             (Rejected (NodeError err),
              if errCode err = Some ''ECONNREFUSED'' then disconnect c' else c')
         | Response res \<Rightarrow>
             (if statusCode res = 200 \<or> statusCode res = 201 \<or> statusCode res = 204
                then Resolved res
              else if statusCode res = 402 then Rejected (ConnextError INSUFFICIENT_BALANCE)
              else if statusCode res = 408 then Rejected (ConnextError TIMEOUT)
              else if statusCode res = 409 then
                (case parseResponseBody res of
                   Resolved b \<Rightarrow>
                     Rejected (case message b of None \<Rightarrow> Undefined | Some m \<Rightarrow> BareString m)
                 | Rejected e \<Rightarrow> Unsettled
                 | Unsettled \<Rightarrow> Unsettled)
              else if statusCode res = 500 then Rejected (ConnextError SERVER_ERROR)
              else Rejected (ConnextError UNEXPECTED),
              c'))"

subsection \<open>Hash-locked transfers\<close>

text \<open>
  \<^verbatim>\<open>executeHashLockTransfer\<close>: post the payload, read \<^verbatim>\<open>preImage\<close> from the
  parsed body, and return it without its \<^verbatim>\<open>0x\<close> when it is truthy and starts with
  \<^verbatim>\<open>0x\<close>; throw \<^verbatim>\<open>errors.INVALID_TOKEN_PAYMENT_RESPONSE\<close> otherwise.
\<close>

definition executeHashLockTransfer ::
  "backend \<Rightarrow> TokenPaymentRequest \<Rightarrow> client \<Rightarrow> string promise \<times> client" where
  "executeHashLockTransfer net p c =
     (case sendRequest net ''/hashlock-transfer'' ''POST'' (Some (HashLockTransfer p)) c of
        (Resolved res, c') \<Rightarrow>
          (case parseResponseBody res of
             Resolved b \<Rightarrow>
               (case preImage b of
                  Some secret \<Rightarrow>
                    if truthy (Some secret) \<and> startsWith0x secret
                    then (Resolved (slice2 secret), c')
                    else (Rejected (ConnextError INVALID_TOKEN_PAYMENT_RESPONSE), c')
                | None \<Rightarrow> (Rejected (ConnextError INVALID_TOKEN_PAYMENT_RESPONSE), c'))
           | Rejected e \<Rightarrow> (Rejected e, c')
           | Unsettled \<Rightarrow> (Unsettled, c'))
      | (Rejected e, c') \<Rightarrow> (Rejected e, c')
      | (Unsettled, c') \<Rightarrow> (Unsettled, c'))"

text \<open>
  \<^verbatim>\<open>executeHashLockResolve\<close>: post \<^verbatim>\<open>{ preImage }\<close>, ignore the response, and
  make the same test on the argument.
\<close>

definition executeHashLockResolve ::
  "backend \<Rightarrow> string \<Rightarrow> client \<Rightarrow> string promise \<times> client" where
  "executeHashLockResolve net pre c =
     (case sendRequest net ''/hashlock-resolve'' ''POST'' (Some (HashLockResolve pre)) c of
        (Resolved res, c') \<Rightarrow>
          if truthy (Some pre) \<and> startsWith0x pre
          then (Resolved (slice2 pre), c')
          else (Rejected (ConnextError INVALID_TOKEN_PAYMENT_RESPONSE), c')
      | (Rejected e, c') \<Rightarrow> (Rejected e, c')
      | (Unsettled, c') \<Rightarrow> (Unsettled, c'))"

subsection \<open>sendPayment\<close>

text \<open>
  The \<^verbatim>\<open>try\<close> block of \<^verbatim>\<open>sendPayment\<close>. The maker branch assigns
  \<^verbatim>\<open>amount\<close> and \<^verbatim>\<open>tokenAddress\<close> from the taker side of the deal and then calls
  \<^verbatim>\<open>executeHashLockResolve(deal.rPreimage)\<close>: the two locals are not read again.
  The other branch builds the transfer payload from the maker side.
\<close>

definition sendPaymentTry :: "backend \<Rightarrow> SwapDeal \<Rightarrow> client \<Rightarrow> string promise \<times> client" where
  "sendPaymentTry net deal c =
     (if role deal = Maker \<and> truthy (rPreimage deal)
      then executeHashLockResolve net (the (rPreimage deal)) c
      else executeHashLockTransfer net
             \<lparr>amount = template (makerUnits deal),
              assetId = tokenAddresses c (makerCurrency deal),
              lockHash = rHash deal,
              timelock = makerCltvDelta deal\<rparr> c)"

text \<open>
  The \<^verbatim>\<open>catch\<close> block: the switch on \<^verbatim>\<open>err.code\<close>, and what the block throws.
  When \<^verbatim>\<open>err\<close> is \<^verbatim>\<open>undefined\<close>, evaluating \<^verbatim>\<open>err.code\<close> raises a
  \<^verbatim>\<open>TypeError\<close>, which leaves the block in place of a swap error.
\<close>

definition sendPaymentCatch :: "thrown \<Rightarrow> thrown" where
  "sendPaymentCatch err =
     (if err = Undefined then TypeError
      else if codeOf err = Some (NodeCode ''ECONNRESET'')
        \<or> codeOf err = Some (ConnextCode UNEXPECTED)
        \<or> codeOf err = Some (ConnextCode TIMEOUT)
        \<or> codeOf err = Some (ConnextCode SERVER_ERROR)
        \<or> codeOf err = Some (ConnextCode INVALID_TOKEN_PAYMENT_RESPONSE)
      then SwapError UNKNOWN_PAYMENT_ERROR (messageOf err)
      else SwapError FINAL_PAYMENT_ERROR (messageOf err))"

definition sendPayment :: "backend \<Rightarrow> SwapDeal \<Rightarrow> client \<Rightarrow> string promise \<times> client" where
  "sendPayment net deal c =
     (if state deal \<noteq> Active then (Rejected AssertionError, c)
      else if \<not> truthy (destination deal) then (Rejected AssertionError, c)
      else case sendPaymentTry net deal c of
             (Resolved secret, c') \<Rightarrow> (Resolved secret, c')
           | (Rejected err, c') \<Rightarrow> (Rejected (sendPaymentCatch err), c')
           | (Unsettled, c') \<Rightarrow> (Unsettled, c'))"

subsection \<open>lookupPayment\<close>

definition getHashLockStatus :: "backend \<Rightarrow> string \<Rightarrow> client \<Rightarrow> string promise \<times> client" where
  "getHashLockStatus net h c =
     (case sendRequest net (''/hashlock-status/'' @ h) ''GET'' None c of
        (Resolved res, c') \<Rightarrow>
          (case parseResponseBody res of
             Resolved b \<Rightarrow> (Resolved (status b), c')
           | Rejected e \<Rightarrow> (Rejected e, c')
           | Unsettled \<Rightarrow> (Unsettled, c'))
      | (Rejected e, c') \<Rightarrow> (Rejected e, c')
      | (Unsettled, c') \<Rightarrow> (Unsettled, c'))"

text \<open>
  The switch of \<^verbatim>\<open>lookupPayment\<close>; the object \<^verbatim>\<open>{ state: s }\<close> it returns is
  modelled by \<open>s\<close>.
\<close>

definition paymentStateOf :: "string \<Rightarrow> PaymentState" where
  "paymentStateOf s =
     (if s = ''PENDING'' then PaymentPending
      else if s = ''COMPLETED'' then PaymentSucceeded
      else if s = ''EXPIRED'' \<or> s = ''FAILED'' then PaymentFailed
      else PaymentFailed)"

definition lookupPayment :: "backend \<Rightarrow> string \<Rightarrow> client \<Rightarrow> PaymentState promise \<times> client" where
  "lookupPayment net h c =
     (case getHashLockStatus net h c of
        (Resolved s, c') \<Rightarrow> (Resolved (paymentStateOf s), c')
      | (Rejected e, c') \<Rightarrow> (Rejected (ConnextError PAYMENT_NOT_FOUND), c')
      | (Unsettled, c') \<Rightarrow> (Unsettled, c'))"

subsection \<open>Initialisation and balances\<close>

definition setSeed :: "string \<Rightarrow> client \<Rightarrow> client" where
  "setSeed s c = c\<lparr>seed := Some s\<rparr>"

definition initConnextClient :: "backend \<Rightarrow> client \<Rightarrow> json promise \<times> client" where
  "initConnextClient net c =
     (case sendRequest net ''/connect'' ''POST'' None c of
        (Resolved res, c') \<Rightarrow> (parseResponseBody res, c')
      | (Rejected e, c') \<Rightarrow> (Rejected e, c')
      | (Unsettled, c') \<Rightarrow> (Unsettled, c'))"

text \<open>
  \<^verbatim>\<open>initSpecific\<close>. \<^verbatim>\<open>verifyConnectionWithTimeout\<close> belongs to the base class
  \<^verbatim>\<open>SwapClient\<close>, not under src/, and races against a timer: it is the parameter
  \<open>verify\<close>. \<^verbatim>\<open>emit\<close> appends the event to \<open>emitted\<close>.
\<close>

definition initSpecific ::
  "(client \<Rightarrow> unit promise \<times> client) \<Rightarrow> backend \<Rightarrow> client \<Rightarrow> unit promise \<times> client" where
  "initSpecific verify net c =
     (if \<not> truthy (seed c)
      then (Rejected (Error ''Cannot initialize ConnextClient without seed''), c)
      else case initConnextClient net c of
             (Resolved cfg, c') \<Rightarrow>
               (let c2 = setStatus Initialized c';
                    c3 = c2\<lparr>emitted := emitted c2 @ [''initialized'']\<rparr>
                in verify c3)
           | (Rejected e, c') \<Rightarrow> (Rejected e, c')
           | (Unsettled, c') \<Rightarrow> (Unsettled, c'))"

record ChannelBalance =
  balance :: int
  pendingOpenBalance :: int
  inactiveBalance :: int

definition getTokenAddress :: "client \<Rightarrow> string \<Rightarrow> thrown + string" where
  "getTokenAddress c currency =
     (if \<not> truthy (tokenAddresses c currency)
      then Inl (ConnextError TOKEN_ADDRESS_NOT_FOUND)
      else Inr (the (tokenAddresses c currency)))"

text \<open>
  \<^verbatim>\<open>channelBalance\<close>. The unit converter (\<^verbatim>\<open>../utils/UnitConverter\<close>, not under
  src/) and the conversion \<^verbatim>\<open>Number(freeBalance)\<close> are the parameters
  \<open>unitsToAmount\<close> and \<open>toNumber\<close>; balances are integers.
\<close>

definition channelBalance ::
  "(string \<Rightarrow> int \<Rightarrow> int) \<Rightarrow> (string \<Rightarrow> int) \<Rightarrow> backend \<Rightarrow> string option \<Rightarrow> client
     \<Rightarrow> ChannelBalance promise \<times> client" where
  "channelBalance unitsToAmount toNumber net currency c =
     (if \<not> truthy currency
      then (Resolved \<lparr>balance = 0, pendingOpenBalance = 0, inactiveBalance = 0\<rparr>, c)
      else case getTokenAddress c (the currency) of
             Inl e \<Rightarrow> (Rejected e, c)
           | Inr tokenAddress \<Rightarrow>
               (case sendRequest net (''/balance/'' @ tokenAddress) ''GET'' None c of
                  (Resolved res, c') \<Rightarrow>
                    (case parseResponseBody res of
                       Resolved b \<Rightarrow>
                         (let pending = unitsToAmount (the currency) (toNumber (freeBalance b));
                              inactive = 0
                          in (Resolved \<lparr>balance = pending + inactive,
                                        pendingOpenBalance = pending,
                                        inactiveBalance = inactive\<rparr>, c'))
                     | Rejected e \<Rightarrow> (Rejected e, c')
                     | Unsettled \<Rightarrow> (Unsettled, c'))
                | (Rejected e, c') \<Rightarrow> (Rejected e, c')
                | (Unsettled, c') \<Rightarrow> (Unsettled, c')))"

section \<open>The order packet\<close>

text \<open>
  \<^verbatim>\<open>OrderPacket.toRaw\<close> is \<^verbatim>\<open>JSON.stringify(this.body)\<close> and
  \<^verbatim>\<open>OrderPacket.fromRaw\<close> is \<^verbatim>\<open>new OrderPacket(JSON.parse(body))\<close>. The two
  functions of the platform are modelled from the ECMAScript specification
  (\<^verbatim>\<open>JSON.stringify\<close> with \<^verbatim>\<open>QuoteJSONString\<close> and \<^verbatim>\<open>Number::toString\<close>; the JSON
  grammar of \<^verbatim>\<open>JSON.parse\<close>) on texts of code units.
\<close>

subsection \<open>Reading a number\<close>

text \<open>The value of a list of digits.\<close>

definition valueOf :: "units \<Rightarrow> nat" where
  "valueOf ds = foldl (\<lambda>a d. 10 * a + (d - 48)) 0 ds"

text \<open>
  The JSON number grammar: an optional minus sign, an integer part (\<^verbatim>\<open>0\<close>, or
  digits that do not start with \<^verbatim>\<open>0\<close>), an optional fraction (a point and at
  least one digit), an optional exponent (\<^verbatim>\<open>e\<close> or \<^verbatim>\<open>E\<close>, an optional sign and
  at least one digit). \<open>fraction\<close> and \<open>exponent\<close> read the optional parts and
  return the rest of the text; \<open>None\<close> is a syntax error.
\<close>

definition fraction :: "units \<Rightarrow> (units \<times> units) option" where
  "fraction cs =
     (case cs of
        [] \<Rightarrow> Some ([], cs)
      | c # r \<Rightarrow>
          if c = 46 then
            (if takeWhile isDigit r = [] then None
             else Some (takeWhile isDigit r, dropWhile isDigit r))
          else Some ([], cs))"

definition exponent :: "units \<Rightarrow> (int \<times> units) option" where
  "exponent cs =
     (case cs of
        [] \<Rightarrow> Some (0, cs)
      | c # r \<Rightarrow>
          if c = 101 \<or> c = 69 then
            (let r' = (if r \<noteq> [] \<and> (hd r = 45 \<or> hd r = 43) then tl r else r);
                 ds = takeWhile isDigit r'
             in if ds = [] then None
                else Some ((if r \<noteq> [] \<and> hd r = 45 then - int (valueOf ds) else int (valueOf ds)),
                           dropWhile isDigit r'))
          else Some (0, cs))"

text \<open>
  The unsigned number at the head of a text: its digits as a natural number, its
  decimal exponent, and the rest of the text.
\<close>

definition scanNumber :: "units \<Rightarrow> (nat \<times> int \<times> units) option" where
  "scanNumber cs =
     (let ip = takeWhile isDigit cs
      in if ip = [] \<or> (hd ip = 48 \<and> 1 < length ip) then None
         else case fraction (dropWhile isDigit cs) of
                None \<Rightarrow> None
              | Some (fp, cs3) \<Rightarrow>
                  (case exponent cs3 of
                     None \<Rightarrow> None
                   | Some (x, cs4) \<Rightarrow> Some (valueOf (ip @ fp), x - int (length fp), cs4)))"

text \<open>The number that a decimal denotes, in canonical form.\<close>

definition finiteNumber :: "int \<Rightarrow> int \<Rightarrow> number" where
  "finiteNumber m e = (case normalise m e of (s, y) \<Rightarrow> Finite s y)"

definition parseNumber :: "units \<Rightarrow> (number \<times> units) option" where
  "parseNumber cs =
     (case cs of
        [] \<Rightarrow> None
      | c # r \<Rightarrow>
          if c = 45
          then map_option (\<lambda>(m, e, rest). (finiteNumber (- int m) e, rest)) (scanNumber r)
          else map_option (\<lambda>(m, e, rest). (finiteNumber (int m) e, rest)) (scanNumber cs))"

text \<open>
  For the properties: a text at which a run of digits stops, and a text at which a
  number stops (it is empty, or starts with no digit, point or letter e).
\<close>

definition stops :: "units \<Rightarrow> bool" where
  "stops rest = (case rest of [] \<Rightarrow> True | c # r \<Rightarrow> \<not> isDigit c)"

definition delimited :: "units \<Rightarrow> bool" where
  "delimited rest =
     (case rest of [] \<Rightarrow> True | c # r \<Rightarrow> \<not> isDigit c \<and> c \<noteq> 46 \<and> c \<noteq> 101 \<and> c \<noteq> 69)"

subsection \<open>Writing and reading a string\<close>

text \<open>
  \<^verbatim>\<open>QuoteJSONString\<close>: backspace, tab, line feed, form feed, carriage return, the
  double quote (34) and the backslash (92) get their two-character escapes; every
  other code unit below 32 and every lone surrogate is written \<^verbatim>\<open>\uXXXX\<close> with
  lower-case hexadecimal digits; a leading surrogate followed by a trailing one, and
  every other code unit, are written as they are.
\<close>

definition hexDigit :: "nat \<Rightarrow> nat" where
  "hexDigit d = (if d < 10 then 48 + d else 87 + d)"

definition hex4 :: "nat \<Rightarrow> units" where
  "hex4 c = [hexDigit (c div 4096 mod 16), hexDigit (c div 256 mod 16),
             hexDigit (c div 16 mod 16), hexDigit (c mod 16)]"

definition unicodeEscape :: "nat \<Rightarrow> units" where
  "unicodeEscape c = 92 # 117 # hex4 c"

definition escapeUnit :: "nat \<Rightarrow> units" where
  "escapeUnit c =
     (if c = 8 then [92, 98]
      else if c = 9 then [92, 116]
      else if c = 10 then [92, 110]
      else if c = 12 then [92, 102]
      else if c = 13 then [92, 114]
      else if c = 34 then [92, 34]
      else if c = 92 then [92, 92]
      else if c < 32 then unicodeEscape c
      else [c])"

definition isLeading :: "nat \<Rightarrow> bool" where
  "isLeading c = (55296 \<le> c \<and> c \<le> 56319)"

definition isTrailing :: "nat \<Rightarrow> bool" where
  "isTrailing c = (56320 \<le> c \<and> c \<le> 57343)"

fun quoteUnits :: "units \<Rightarrow> units" where
  "quoteUnits [] = []"
| "quoteUnits [c] = (if isLeading c \<or> isTrailing c then unicodeEscape c else escapeUnit c)"
| "quoteUnits (c # d # cs) =
     (if isLeading c \<and> isTrailing d then c # d # quoteUnits cs
      else if isLeading c \<or> isTrailing c then unicodeEscape c @ quoteUnits (d # cs)
      else escapeUnit c @ quoteUnits (d # cs))"

definition quoteJSONString :: "units \<Rightarrow> units" where
  "quoteJSONString s = 34 # quoteUnits s @ [34]"

text \<open>
  The JSON string grammar, after the opening quote: up to the closing quote, a
  backslash starts an escape (one of \<^verbatim>\<open>" \ / b f n r t\<close>, or \<^verbatim>\<open>u\<close> and four
  hexadecimal digits of either case), a code unit below 32 is a syntax error, every
  other code unit stands for itself. The result is the string and the rest of the
  text.
\<close>

definition hexValue :: "nat \<Rightarrow> nat option" where
  "hexValue c =
     (if 48 \<le> c \<and> c \<le> 57 then Some (c - 48)
      else if 97 \<le> c \<and> c \<le> 102 then Some (c - 87)
      else if 65 \<le> c \<and> c \<le> 70 then Some (c - 55)
      else None)"

definition hexUnit :: "nat \<Rightarrow> nat \<Rightarrow> nat \<Rightarrow> nat \<Rightarrow> nat option" where
  "hexUnit h1 h2 h3 h4 =
     (case (hexValue h1, hexValue h2, hexValue h3, hexValue h4) of
        (Some a, Some b, Some c, Some d) \<Rightarrow> Some (((a * 16 + b) * 16 + c) * 16 + d)
      | _ \<Rightarrow> None)"

definition unescape :: "nat \<Rightarrow> nat option" where
  "unescape e =
     (if e = 34 then Some 34
      else if e = 92 then Some 92
      else if e = 47 then Some 47
      else if e = 98 then Some 8
      else if e = 102 then Some 12
      else if e = 110 then Some 10
      else if e = 114 then Some 13
      else if e = 116 then Some 9
      else None)"

fun parseChars :: "units \<Rightarrow> (units \<times> units) option" where
  "parseChars [] = None"
| "parseChars (c # cs) =
     (if c = 34 then Some ([], cs)
      else if c = 92 then
        (case cs of
           [] \<Rightarrow> None
         | e # r \<Rightarrow>
             if e = 117 then
               (if length r < 4 then None
                else case hexUnit (r ! 0) (r ! 1) (r ! 2) (r ! 3) of
                       None \<Rightarrow> None
                     | Some u \<Rightarrow> map_option (\<lambda>(s, rest). (u # s, rest)) (parseChars (drop 4 r)))
             else
               (case unescape e of
                  None \<Rightarrow> None
                | Some u \<Rightarrow> map_option (\<lambda>(s, rest). (u # s, rest)) (parseChars r)))
      else if c < 32 then None
      else map_option (\<lambda>(s, rest). (c # s, rest)) (parseChars cs))"

subsection \<open>JSON.stringify\<close>

text \<open>
  The values that JSON texts denote, which are also the values of the fields of an
  order: \<^verbatim>\<open>null\<close>, booleans, numbers, strings, arrays, and objects as the list of
  their properties in the order in which \<^verbatim>\<open>JSON.stringify\<close> enumerates them (the
  order of their creation, for keys that are not array indices).
\<close>

datatype jsValue =
    JNull
  | JBool bool
  | JNumber number
  | JString units
  | JArray "jsValue list"
  | JObject "(units \<times> jsValue) list"

text \<open>
  \<^verbatim>\<open>SerializeJSONProperty\<close> with no indentation: a number that is not finite is
  written \<^verbatim>\<open>null\<close>, a finite one by \<^verbatim>\<open>Number::toString\<close>; the elements of an
  array and the members of an object are separated by commas (44), a key from its
  value by a colon (58).
\<close>

fun stringify :: "jsValue \<Rightarrow> units"
  and stringifyMore :: "jsValue list \<Rightarrow> units"
  and stringifyMoreMembers :: "(units \<times> jsValue) list \<Rightarrow> units" where
  "stringify JNull = [110, 117, 108, 108]"
| "stringify (JBool b) = (if b then [116, 114, 117, 101] else [102, 97, 108, 115, 101])"
| "stringify (JNumber n) = (if isFinite n then numberToString n else [110, 117, 108, 108])"
| "stringify (JString s) = quoteJSONString s"
| "stringify (JArray []) = [91, 93]"
| "stringify (JArray (v # vs)) = 91 # stringify v @ stringifyMore vs @ [93]"
| "stringify (JObject []) = [123, 125]"
| "stringify (JObject ((k, v) # ms)) =
     123 # quoteJSONString k @ 58 # stringify v @ stringifyMoreMembers ms @ [125]"
| "stringifyMore [] = []"
| "stringifyMore (v # vs) = 44 # stringify v @ stringifyMore vs"
| "stringifyMoreMembers [] = []"
| "stringifyMoreMembers ((k, v) # ms) =
     44 # quoteJSONString k @ 58 # stringify v @ stringifyMoreMembers ms"

definition JSON_stringify :: "jsValue \<Rightarrow> units" where
  "JSON_stringify v = stringify v"

subsection \<open>JSON.parse\<close>

text \<open>
  The tokens of a JSON text: the six structural characters, strings, numbers and the
  three literal names. White space (space, tab, line feed, carriage return) may
  surround every token.
\<close>

datatype token =
    LBrace | RBrace | LBracket | RBracket | Colon | Comma
  | TString units | TNumber number | TTrue | TFalse | TNull

function tokenize :: "units \<Rightarrow> token list option" where
  "tokenize [] = Some []"
| "tokenize (c # cs) =
     (if c = 32 \<or> c = 9 \<or> c = 10 \<or> c = 13 then tokenize cs
      else if c = 123 then map_option (Cons LBrace) (tokenize cs)
      else if c = 125 then map_option (Cons RBrace) (tokenize cs)
      else if c = 91 then map_option (Cons LBracket) (tokenize cs)
      else if c = 93 then map_option (Cons RBracket) (tokenize cs)
      else if c = 58 then map_option (Cons Colon) (tokenize cs)
      else if c = 44 then map_option (Cons Comma) (tokenize cs)
      else if c = 34 then
        (case parseChars cs of
           None \<Rightarrow> None
         | Some (s, rest) \<Rightarrow> map_option (Cons (TString s)) (tokenize rest))
      else if c = 45 \<or> isDigit c then
        (case parseNumber (c # cs) of
           None \<Rightarrow> None
         | Some (n, rest) \<Rightarrow> map_option (Cons (TNumber n)) (tokenize rest))
      else if c = 116 \<and> take 3 cs = [114, 117, 101]
        then map_option (Cons TTrue) (tokenize (drop 3 cs))
      else if c = 102 \<and> take 4 cs = [97, 108, 115, 101]
        then map_option (Cons TFalse) (tokenize (drop 4 cs))
      else if c = 110 \<and> take 3 cs = [117, 108, 108]
        then map_option (Cons TNull) (tokenize (drop 3 cs))
      else None)"
  by pat_completeness auto
termination
proof (relation "measure length")
  have chars: "length rest < length cs" if "parseChars cs = Some (s, rest)" for cs s rest
    using that
  proof (induction cs arbitrary: s rest rule: parseChars.induct)
    case 1
    then show ?case by simp
  next
    case (2 c cs)
    show ?case
    proof (cases "c = 34")
      case True
      with "2.prems" show ?thesis by simp
    next
      case n34: False
      show ?thesis
      proof (cases "c = 92")
        case True
        with n34 "2.prems" obtain e r where cs: "cs = e # r"
          by (cases cs) auto
        show ?thesis
        proof (cases "e = 117")
          case u: True
          with n34 True cs "2.prems" obtain v s' where l: "\<not> length r < 4"
            and h: "hexUnit (r ! 0) (r ! 1) (r ! 2) (r ! 3) = Some v"
            and p: "parseChars (drop 4 r) = Some (s', rest)"
            by (auto split: if_splits option.splits)
          from "2.IH"(1) [OF n34 True cs u l h p] show ?thesis using cs by simp
        next
          case nu: False
          with n34 True cs "2.prems" obtain v s' where h: "unescape e = Some v"
            and p: "parseChars r = Some (s', rest)"
            by (auto split: option.splits)
          from "2.IH"(2) [OF n34 True cs nu h p] show ?thesis using cs by simp
        qed
      next
        case n92: False
        with n34 "2.prems" obtain s' where ge: "\<not> c < 32"
          and p: "parseChars cs = Some (s', rest)"
          by (auto split: if_splits)
        from "2.IH"(3) [OF n34 n92 ge p] show ?thesis by simp
      qed
    qed
  qed
  have frac: "length r \<le> length cs" if "fraction cs = Some (fp, r)" for cs fp r
    using that length_dropWhile_le [of isDigit "tl cs"]
    by (cases cs) (auto simp: fraction_def split: if_splits)
  have expo: "length r \<le> length cs" if "exponent cs = Some (x, r)" for cs x r
  proof (cases cs)
    case Nil
    with that show ?thesis by (simp add: exponent_def)
  next
    case (Cons c t)
    show ?thesis
    proof (cases "c = 101 \<or> c = 69")
      case True
      let ?t' = "if t \<noteq> [] \<and> (hd t = 45 \<or> hd t = 43) then tl t else t"
      from that Cons True have "r = dropWhile isDigit ?t'"
        by (auto simp: exponent_def Let_def split: if_splits)
      moreover have "length (dropWhile isDigit ?t') \<le> length ?t'" by (rule length_dropWhile_le)
      moreover have "length ?t' \<le> length t" by simp
      ultimately show ?thesis using Cons by simp
    next
      case False
      with that Cons show ?thesis by (auto simp: exponent_def)
    qed
  qed
  have scan: "length r < length cs" if "scanNumber cs = Some (m, e, r)" for cs m e r
  proof -
    from that obtain fp cs3 x where ip: "takeWhile isDigit cs \<noteq> []"
      and f: "fraction (dropWhile isDigit cs) = Some (fp, cs3)"
      and e: "exponent cs3 = Some (x, r)"
      by (auto simp: scanNumber_def Let_def split: if_splits option.splits)
    have "length (takeWhile isDigit cs) + length (dropWhile isDigit cs) = length cs"
      using takeWhile_dropWhile_id [of isDigit cs] by (metis length_append)
    with ip have "length (dropWhile isDigit cs) < length cs"
      by (cases "takeWhile isDigit cs") auto
    with frac [OF f] expo [OF e] show ?thesis by simp
  qed
  have num: "length rest < length cs" if "parseNumber cs = Some (n, rest)" for cs n rest
  proof (cases cs)
    case Nil
    with that show ?thesis by (simp add: parseNumber_def)
  next
    case (Cons c t)
    show ?thesis
    proof (cases "c = 45")
      case True
      with that Cons obtain m e where "scanNumber t = Some (m, e, rest)"
        by (auto simp: parseNumber_def)
      from scan [OF this] Cons show ?thesis by simp
    next
      case False
      with that Cons obtain m e where "scanNumber cs = Some (m, e, rest)"
        by (auto simp: parseNumber_def)
      from scan [OF this] show ?thesis .
    qed
  qed
  show "wf (measure length)" by simp
  show "(rest, c # cs) \<in> measure length"
    if "parseChars cs = Some x2" "(s, rest) = x2" for c cs x2 s rest
    using chars [of cs s rest] that by simp
  show "(rest, c # cs) \<in> measure length"
    if "parseNumber (c # cs) = Some x2" "(n, rest) = x2" for c cs x2 n rest
    using num [of "c # cs" n rest] that by simp
qed simp_all

text \<open>
  The JSON value grammar over the tokens, with the arrays and objects that are open
  kept on a stack: \<open>parseTokens\<close> expects a value, \<open>afterValue\<close> has read one.
  An open array holds its elements so far, an open object its members so far and
  the key that waits for its value, both last first. The text is a value when the
  tokens end with the stack empty; everything else is a syntax error.
\<close>

datatype frame = InArray "jsValue list" | InObject "(units \<times> jsValue) list" units

definition memberStart :: "token list \<Rightarrow> (units \<times> token list) option" where
  "memberStart ts =
     (case ts of
        TString k # t # r \<Rightarrow> if t = Colon then Some (k, r) else None
      | _ \<Rightarrow> None)"

function parseTokens :: "frame list \<Rightarrow> token list \<Rightarrow> jsValue option"
  and afterValue :: "jsValue \<Rightarrow> frame list \<Rightarrow> token list \<Rightarrow> jsValue option" where
  "parseTokens stk [] = None"
| "parseTokens stk (t # ts) =
     (case t of
        TString s \<Rightarrow> afterValue (JString s) stk ts
      | TNumber n \<Rightarrow> afterValue (JNumber n) stk ts
      | TTrue \<Rightarrow> afterValue (JBool True) stk ts
      | TFalse \<Rightarrow> afterValue (JBool False) stk ts
      | TNull \<Rightarrow> afterValue JNull stk ts
      | LBracket \<Rightarrow>
          if ts \<noteq> [] \<and> hd ts = RBracket then afterValue (JArray []) stk (tl ts)
          else parseTokens (InArray [] # stk) ts
      | LBrace \<Rightarrow>
          if ts \<noteq> [] \<and> hd ts = RBrace then afterValue (JObject []) stk (tl ts)
          else (case memberStart ts of
                  None \<Rightarrow> None
                | Some (k, r) \<Rightarrow> parseTokens (InObject [] k # stk) r)
      | _ \<Rightarrow> None)"
| "afterValue v [] ts = (if ts = [] then Some v else None)"
| "afterValue v (f # stk) [] = None"
| "afterValue v (f # stk) (t # ts) =
     (case f of
        InArray vs \<Rightarrow>
          if t = Comma then parseTokens (InArray (v # vs) # stk) ts
          else if t = RBracket then afterValue (JArray (rev (v # vs))) stk ts
          else None
      | InObject ms k \<Rightarrow>
          if t = Comma then
            (case memberStart ts of
               None \<Rightarrow> None
             | Some (k', r) \<Rightarrow> parseTokens (InObject ((k, v) # ms) k' # stk) r)
          else if t = RBrace then afterValue (JObject (rev ((k, v) # ms))) stk ts
          else None)"
  by pat_completeness auto
termination
proof (relation
    "measure (\<lambda>x. case x of Inl (stk, ts) \<Rightarrow> length ts | Inr (v, stk, ts) \<Rightarrow> length ts)")
  have start: "length r < length ts" if "memberStart ts = Some (k, r)" for ts k r
    using that by (auto simp: memberStart_def split: list.splits token.splits if_splits)
  show "(Inl (InObject [] k # stk, r), Inl (stk, t # ts))
          \<in> measure (\<lambda>x. case x of Inl (stk, ts) \<Rightarrow> length ts | Inr (v, stk, ts) \<Rightarrow> length ts)"
    if "memberStart ts = Some x2" "(k, r) = x2" for stk t ts x2 k r
    using start [of ts k r] that by simp
  show "(Inl (InObject ((k, v) # ms) k' # stk, r), Inr (v, f # stk, t # ts))
          \<in> measure (\<lambda>x. case x of Inl (stk, ts) \<Rightarrow> length ts | Inr (v, stk, ts) \<Rightarrow> length ts)"
    if "memberStart ts = Some x2" "(k', r) = x2" for stk t ts x2 k k' r v f ms
    using start [of ts k' r] that by simp
qed auto

text \<open>\<^verbatim>\<open>JSON.parse\<close>; \<open>None\<close> is the \<^verbatim>\<open>SyntaxError\<close> it throws.\<close>

definition JSON_parse :: "units \<Rightarrow> jsValue option" where
  "JSON_parse text = (case tokenize text of None \<Rightarrow> None | Some ts \<Rightarrow> parseTokens [] ts)"

text \<open>
  For the properties: the tokens of the text that \<open>stringify\<close> writes, the value
  with \<^verbatim>\<open>null\<close> in place of every number that is not finite, the values whose
  numbers are all canonical, and a list of tokens put before a result of
  \<open>tokenize\<close>.
\<close>

fun tokens :: "jsValue \<Rightarrow> token list"
  and tokensMore :: "jsValue list \<Rightarrow> token list"
  and tokensMoreMembers :: "(units \<times> jsValue) list \<Rightarrow> token list" where
  "tokens JNull = [TNull]"
| "tokens (JBool b) = [if b then TTrue else TFalse]"
| "tokens (JNumber n) = [if isFinite n then TNumber n else TNull]"
| "tokens (JString s) = [TString s]"
| "tokens (JArray []) = [LBracket, RBracket]"
| "tokens (JArray (v # vs)) = LBracket # tokens v @ tokensMore vs @ [RBracket]"
| "tokens (JObject []) = [LBrace, RBrace]"
| "tokens (JObject ((k, v) # ms)) =
     LBrace # TString k # Colon # tokens v @ tokensMoreMembers ms @ [RBrace]"
| "tokensMore [] = []"
| "tokensMore (v # vs) = Comma # tokens v @ tokensMore vs"
| "tokensMoreMembers [] = []"
| "tokensMoreMembers ((k, v) # ms) = Comma # TString k # Colon # tokens v @ tokensMoreMembers ms"

fun nullified :: "jsValue \<Rightarrow> jsValue" where
  "nullified (JNumber n) = (if isFinite n then JNumber n else JNull)"
| "nullified (JArray vs) = JArray (map nullified vs)"
| "nullified (JObject ms) = JObject (map (map_prod id nullified) ms)"
| "nullified v = v"

fun canonicalValue :: "jsValue \<Rightarrow> bool" where
  "canonicalValue (JNumber n) = canonical n"
| "canonicalValue (JArray vs) = (\<forall>v\<in>set vs. canonicalValue v)"
| "canonicalValue (JObject ms) = (\<forall>m\<in>set ms. canonicalValue (snd m))"
| "canonicalValue v = True"

definition prepend :: "token list \<Rightarrow> token list option \<Rightarrow> token list option" where
  "prepend ts z = map_option ((@) ts) z"

subsection \<open>OrderPacket\<close>

text \<open>The code units of an ASCII string.\<close>

definition unitsOf :: "string \<Rightarrow> units" where
  "unitsOf s = map of_char s"

text \<open>
  \<^verbatim>\<open>OrderPacketBody\<close> (\<open>id'\<close> is the field \<^verbatim>\<open>id\<close>), and the object that holds it:
  its five properties in the order of the type.
\<close>

record OrderPacketBody =
  id' :: units
  pairId :: units
  quantity :: number
  price :: number
  invoice :: units

definition objectOf :: "OrderPacketBody \<Rightarrow> jsValue" where
  "objectOf b =
     JObject [(unitsOf ''id'', JString (id' b)),
              (unitsOf ''pairId'', JString (pairId b)),
              (unitsOf ''quantity'', JNumber (quantity b)),
              (unitsOf ''price'', JNumber (price b)),
              (unitsOf ''invoice'', JString (invoice b))]"

text \<open>
  The packet. Its \<^verbatim>\<open>type\<close> is the constant \<^verbatim>\<open>PacketType.ORDER\<close> and its two response
  fields are \<^verbatim>\<open>undefined\<close>; the body of a packet made by \<^verbatim>\<open>fromRaw\<close> is whatever
  value the text denotes.
\<close>

record OrderPacket =
  body :: jsValue

definition newOrderPacket :: "OrderPacketBody \<Rightarrow> OrderPacket" where
  "newOrderPacket b = \<lparr>body = objectOf b\<rparr>"

definition fromRaw :: "units \<Rightarrow> OrderPacket option" where
  "fromRaw text =
     (case JSON_parse text of None \<Rightarrow> None | Some bodyObject \<Rightarrow> Some \<lparr>body = bodyObject\<rparr>)"

definition toRaw :: "OrderPacket \<Rightarrow> units" where
  "toRaw p = JSON_stringify (body p)"

text \<open>
  Reading a property of a value: of an object, the value of the last member with
  that key; \<^verbatim>\<open>undefined\<close> (\<open>None\<close>) otherwise.
\<close>

fun property :: "jsValue \<Rightarrow> units \<Rightarrow> jsValue option" where
  "property (JObject ms) k = map_of (rev ms) k"
| "property v k = None"

section \<open>Example inputs\<close>

text \<open>A backend that answers every request with one response, or fails every request.\<close>

definition answering :: "response \<Rightarrow> backend" where
  "answering res = (\<lambda>rq. Response res)"

definition failing :: "nodeError \<Rightarrow> backend" where
  "failing err = (\<lambda>rq. RequestError err)"

definition exampleClient :: client where
  "exampleClient =
     \<lparr>seed = None, clientStatus = NotInitialized,
      tokenAddresses = [''ETH'' \<mapsto> ''0xeeee'', ''DAI'' \<mapsto> ''0xdddd''],
      emitted = [], sent = []\<rparr>"

text \<open>
  Bodies: \<^verbatim>\<open>{preImage}\<close>, \<^verbatim>\<open>{status}\<close> and \<^verbatim>\<open>{message}\<close>; \<open>conflict None\<close>
  is the body \<^verbatim>\<open>{}\<close>. The deals hold 1000 maker units, 2000 taker units and a
  timelock of 40.
\<close>

definition transferred :: "string option \<Rightarrow> json" where
  "transferred p = \<lparr>message = None, preImage = p, status = [], freeBalance = []\<rparr>"

definition lockStatus :: "string \<Rightarrow> json" where
  "lockStatus s = \<lparr>message = None, preImage = None, status = s, freeBalance = []\<rparr>"

definition conflict :: "string option \<Rightarrow> json" where
  "conflict m = \<lparr>message = m, preImage = None, status = [], freeBalance = []\<rparr>"

definition makerDeal :: SwapDeal where
  "makerDeal =
     \<lparr>role = Maker, state = Active, destination = Some ''0xdest'', rHash = ''0xhash'',
      rPreimage = Some ''0xabcd'', makerCurrency = ''ETH'', takerCurrency = ''DAI'',
      makerUnits = Finite 1 3, takerUnits = Finite 2 3, makerCltvDelta = Some (Finite 4 1)\<rparr>"

definition takerDeal :: SwapDeal where
  "takerDeal =
     \<lparr>role = Taker, state = Active, destination = Some ''0xdest'', rHash = ''0xhash'',
      rPreimage = None, makerCurrency = ''ETH'', takerCurrency = ''DAI'',
      makerUnits = Finite 1 3, takerUnits = Finite 2 3, makerCltvDelta = Some (Finite 4 1)\<rparr>"

definition examplePayment :: TokenPaymentRequest where
  "examplePayment =
     \<lparr>amount = ''1000'', assetId = Some ''0xeeee'', lockHash = ''0xhash'',
      timelock = Some (Finite 4 1)\<rparr>"

text \<open>An order of 1.5 at the price 0.0005.\<close>

definition exampleBody :: OrderPacketBody where
  "exampleBody =
     \<lparr>id' = unitsOf ''o1'', pairId = unitsOf ''LTC/BTC'', quantity = Finite 15 (- 1),
      price = Finite 5 (- 4), invoice = unitsOf ''lnbc1''\<rparr>"

section \<open>Properties\<close>

declare digitsOf.simps [simp del] normalise.simps [simp del]

subsection \<open>Requests and their trace\<close>

lemma sendRequest_sent:
  "sent (snd (sendRequest net ep m p c)) = sent c @ [\<lparr>endpoint = ep, httpMethod = m, payload = p\<rparr>]"
  by (simp add: sendRequest_def Let_def disconnect_def setStatus_def split: reply.splits)

lemma sendRequest_response:
  assumes "net \<lparr>endpoint = ep, httpMethod = m, payload = p\<rparr> = Response res"
  shows "sendRequest net ep m p c =
    (if statusCode res = 200 \<or> statusCode res = 201 \<or> statusCode res = 204
       then Resolved res
     else if statusCode res = 402 then Rejected (ConnextError INSUFFICIENT_BALANCE)
     else if statusCode res = 408 then Rejected (ConnextError TIMEOUT)
     else if statusCode res = 409 then
       (case stream res of
          Json b \<Rightarrow> Rejected (case message b of None \<Rightarrow> Undefined | Some m \<Rightarrow> BareString m)
        | _ \<Rightarrow> Unsettled)
     else if statusCode res = 500 then Rejected (ConnextError SERVER_ERROR)
     else Rejected (ConnextError UNEXPECTED),
     c\<lparr>sent := sent c @ [\<lparr>endpoint = ep, httpMethod = m, payload = p\<rparr>]\<rparr>)"
  using assms by (simp add: sendRequest_def Let_def split: bodyStream.splits)

lemma sendRequest_error:
  assumes "net \<lparr>endpoint = ep, httpMethod = m, payload = p\<rparr> = RequestError err"
  shows "fst (sendRequest net ep m p c) = Rejected (NodeError err)"
  using assms by (simp add: sendRequest_def Let_def)

lemma executeHashLockTransfer_sent:
  "sent (snd (executeHashLockTransfer net p c)) =
     sent c @ [\<lparr>endpoint = ''/hashlock-transfer'', httpMethod = ''POST'',
                payload = Some (HashLockTransfer p)\<rparr>]"
  using sendRequest_sent [of net "''/hashlock-transfer''" "''POST''" "Some (HashLockTransfer p)" c]
  by (auto simp: executeHashLockTransfer_def split: prod.splits promise.splits option.splits)

lemma executeHashLockResolve_sent:
  "sent (snd (executeHashLockResolve net pre c)) =
     sent c @ [\<lparr>endpoint = ''/hashlock-resolve'', httpMethod = ''POST'',
                payload = Some (HashLockResolve pre)\<rparr>]"
  using sendRequest_sent [of net "''/hashlock-resolve''" "''POST''" "Some (HashLockResolve pre)" c]
  by (auto simp: executeHashLockResolve_def split: prod.splits promise.splits)

lemma sendPayment_sent:
  assumes "state deal = Active" and "truthy (destination deal)"
  shows "sent (snd (sendPayment net deal c)) = sent (snd (sendPaymentTry net deal c))"
  using assms by (auto simp: sendPayment_def split: prod.splits promise.splits)

lemma startsWith0x_iff: "startsWith0x s \<longleftrightarrow> (\<exists>t. s = ''0x'' @ t)"
proof
  assume "startsWith0x s"
  then have "take 2 s = ''0x''" by (simp add: startsWith0x_def)
  then have "s = ''0x'' @ drop 2 s" by (metis append_take_drop_id)
  then show "\<exists>t. s = ''0x'' @ t" ..
next
  assume "\<exists>t. s = ''0x'' @ t"
  then show "startsWith0x s" by (auto simp: startsWith0x_def)
qed

lemma slice2_0x: "slice2 (''0x'' @ t) = t"
  by (simp add: slice2_def)

subsection \<open>The branch of sendPayment\<close>

text \<open>
  C1, as amended. For an active deal with a destination, \<^verbatim>\<open>sendPayment\<close> makes
  exactly one network call. When the role is Maker and \<^verbatim>\<open>rPreimage\<close> is truthy, the
  call is \<^verbatim>\<open>POST /hashlock-resolve\<close> (the request of \<^verbatim>\<open>executeHashLockResolve\<close>),
  carrying the preimage and nothing else, and no \<^verbatim>\<open>/hashlock-transfer\<close> is sent.
  Otherwise (Taker, or Maker with no preimage or an empty one) the call is
  \<^verbatim>\<open>POST /hashlock-transfer\<close> (the request of \<^verbatim>\<open>executeHashLockTransfer\<close>) with
  the amount \<^verbatim>\<open>makerUnits\<close> as the string that \<^verbatim>\<open>Number::toString\<close> prints for
  it, the token address of the maker currency (\<^verbatim>\<open>undefined\<close> when the map has
  none), the deal's \<^verbatim>\<open>rHash\<close> as lock hash and \<^verbatim>\<open>makerCltvDelta\<close> as timelock,
  and no \<^verbatim>\<open>/hashlock-resolve\<close> is sent.
\<close>

theorem sendPayment_branch:
  assumes "state deal = Active" and "truthy (destination deal)"
  shows "(role deal = Maker \<and> truthy (rPreimage deal) \<longrightarrow>
            sent (snd (sendPayment net deal c)) =
              sent c @ [\<lparr>endpoint = ''/hashlock-resolve'', httpMethod = ''POST'',
                         payload = Some (HashLockResolve (the (rPreimage deal)))\<rparr>])
       \<and> (\<not> (role deal = Maker \<and> truthy (rPreimage deal)) \<longrightarrow>
            sent (snd (sendPayment net deal c)) =
              sent c @ [\<lparr>endpoint = ''/hashlock-transfer'', httpMethod = ''POST'',
                         payload = Some (HashLockTransfer
                           \<lparr>amount = template (makerUnits deal),
                            assetId = tokenAddresses c (makerCurrency deal),
                            lockHash = rHash deal,
                            timelock = makerCltvDelta deal\<rparr>)\<rparr>])"
  using assms
  by (simp add: sendPayment_sent sendPaymentTry_def executeHashLockResolve_sent
        executeHashLockTransfer_sent)

text \<open>
  The amended C1 at the taker deal of the spec's scenario (1000 maker units of ETH):
  one transfer request, with amount \<^verbatim>\<open>"1000"\<close>; and at the same deal with
  \<open>10^21\<close> maker units, where the amount is \<^verbatim>\<open>"1e+21"\<close>.
\<close>

theorem sendPayment_branch_witness:
  "state takerDeal = Active \<and> truthy (destination takerDeal)
   \<and> sent (snd (sendPayment
        (answering \<lparr>statusCode = 200, stream = Json (transferred (Some ''0xabcd''))\<rparr>)
        takerDeal exampleClient)) =
      [\<lparr>endpoint = ''/hashlock-transfer'', httpMethod = ''POST'',
        payload = Some (HashLockTransfer \<lparr>amount = ''1000'', assetId = Some ''0xeeee'',
                       lockHash = ''0xhash'', timelock = Some (Finite 4 1)\<rparr>)\<rparr>]
   \<and> state (takerDeal\<lparr>makerUnits := Finite 1 21\<rparr>) = Active
   \<and> truthy (destination (takerDeal\<lparr>makerUnits := Finite 1 21\<rparr>))
   \<and> sent (snd (sendPayment
        (answering \<lparr>statusCode = 200, stream = Json (transferred (Some ''0xabcd''))\<rparr>)
        (takerDeal\<lparr>makerUnits := Finite 1 21\<rparr>) exampleClient)) =
      [\<lparr>endpoint = ''/hashlock-transfer'', httpMethod = ''POST'',
        payload = Some (HashLockTransfer \<lparr>amount = ''1e+21'', assetId = Some ''0xeeee'',
                       lockHash = ''0xhash'', timelock = Some (Finite 4 1)\<rparr>)\<rparr>]"
proof -
  have a: "state takerDeal = Active" by (simp add: takerDeal_def)
  have d: "truthy (destination takerDeal)" by (simp add: takerDeal_def)
  have a': "state (takerDeal\<lparr>makerUnits := Finite 1 21\<rparr>) = Active" by (simp add: takerDeal_def)
  have d': "truthy (destination (takerDeal\<lparr>makerUnits := Finite 1 21\<rparr>))"
    by (simp add: takerDeal_def)
  have t: "template (Finite 1 3) = ''1000''" by code_simp
  have t': "template (Finite 1 21) = ''1e+21''" by code_simp
  show ?thesis
    using a d a' d' t t'
      sendPayment_branch [OF a d,
        of "answering \<lparr>statusCode = 200, stream = Json (transferred (Some ''0xabcd''))\<rparr>"
           exampleClient]
      sendPayment_branch [OF a' d',
        of "answering \<lparr>statusCode = 200, stream = Json (transferred (Some ''0xabcd''))\<rparr>"
           exampleClient]
    by (simp add: takerDeal_def exampleClient_def)
qed

text \<open>
  C1 as stated fails in the maker branch: the resolve call does not carry the token
  address of the taker currency nor \<^verbatim>\<open>takerUnits\<close>. For a maker deal of 2000 taker
  units of DAI (token \<^verbatim>\<open>0xdddd\<close>) with preimage \<^verbatim>\<open>0xabcd\<close>, the one request sent
  holds the preimage alone, and a deal with another taker currency and other taker
  units gives the same result and the same request.
\<close>

theorem sendPayment_resolve_counterexample:
  "sent (snd (sendPayment (answering \<lparr>statusCode = 200, stream = Json (transferred None)\<rparr>)
        makerDeal exampleClient)) =
      [\<lparr>endpoint = ''/hashlock-resolve'', httpMethod = ''POST'',
        payload = Some (HashLockResolve ''0xabcd'')\<rparr>]
   \<and> sendPayment (answering \<lparr>statusCode = 200, stream = Json (transferred None)\<rparr>)
        (makerDeal\<lparr>takerCurrency := ''LTC'', takerUnits := Finite 7 0\<rparr>) exampleClient
     = sendPayment (answering \<lparr>statusCode = 200, stream = Json (transferred None)\<rparr>)
        makerDeal exampleClient"
  by (simp add: sendPayment_def sendPaymentTry_def executeHashLockResolve_def sendRequest_def
        answering_def makerDeal_def exampleClient_def Let_def startsWith0x_def slice2_def)

subsection \<open>The assertions of sendPayment\<close>

text \<open>
  C2. When the state of the deal is not \<open>Active\<close>, or its destination is unset
  (falsy: \<^verbatim>\<open>undefined\<close> or empty), \<^verbatim>\<open>sendPayment\<close> fails with the assertion
  error and leaves the client as it was, so no request has been sent. When the deal
  is \<open>Active\<close> with a destination, \<^verbatim>\<open>sendPayment\<close> does not end in the assertion
  error.
\<close>

theorem sendPayment_assertion:
  "(state deal \<noteq> Active \<or> \<not> truthy (destination deal) \<longrightarrow>
      sendPayment net deal c = (Rejected AssertionError, c))
   \<and> (state deal = Active \<and> truthy (destination deal) \<longrightarrow>
      fst (sendPayment net deal c) \<noteq> Rejected AssertionError)"
  by (auto simp: sendPayment_def sendPaymentCatch_def split: prod.splits promise.splits)

text \<open>C2 at a failed deal, at a deal without destination, and at an active deal.\<close>

theorem sendPayment_assertion_witness:
  "state (takerDeal\<lparr>state := Failed\<rparr>) \<noteq> Active
   \<and> sendPayment (answering \<lparr>statusCode = 200, stream = Json (transferred (Some ''0xabcd''))\<rparr>)
        (takerDeal\<lparr>state := Failed\<rparr>) exampleClient = (Rejected AssertionError, exampleClient)
   \<and> \<not> truthy (destination (takerDeal\<lparr>destination := None\<rparr>))
   \<and> sendPayment (answering \<lparr>statusCode = 200, stream = Json (transferred (Some ''0xabcd''))\<rparr>)
        (takerDeal\<lparr>destination := None\<rparr>) exampleClient = (Rejected AssertionError, exampleClient)
   \<and> state takerDeal = Active \<and> truthy (destination takerDeal)
   \<and> fst (sendPayment (answering \<lparr>statusCode = 200, stream = Json (transferred (Some ''0xabcd''))\<rparr>)
        takerDeal exampleClient) \<noteq> Rejected AssertionError"
  using
    sendPayment_assertion [of "takerDeal\<lparr>state := Failed\<rparr>"
      "answering \<lparr>statusCode = 200, stream = Json (transferred (Some ''0xabcd''))\<rparr>" exampleClient]
    sendPayment_assertion [of "takerDeal\<lparr>destination := None\<rparr>"
      "answering \<lparr>statusCode = 200, stream = Json (transferred (Some ''0xabcd''))\<rparr>" exampleClient]
    sendPayment_assertion [of takerDeal
      "answering \<lparr>statusCode = 200, stream = Json (transferred (Some ''0xabcd''))\<rparr>" exampleClient]
  by (simp add: takerDeal_def)

subsection \<open>The prefix of the preimage\<close>

text \<open>
  C3. When the backend answers the transfer request with a success status and a
  parsed body: if the preimage of the body is missing or does not start with
  \<^verbatim>\<open>0x\<close>, \<^verbatim>\<open>executeHashLockTransfer\<close> fails with
  \<^verbatim>\<open>INVALID_TOKEN_PAYMENT_RESPONSE\<close>; if it is \<^verbatim>\<open>0x\<close> followed by \<open>t\<close>, the call
  succeeds with \<open>t\<close>. Likewise \<^verbatim>\<open>executeHashLockResolve\<close>, once the backend has
  answered its request with a success status, for the preimage it was given.
\<close>

theorem hashLock_preimage_prefix:
  "(net \<lparr>endpoint = ''/hashlock-transfer'', httpMethod = ''POST'',
          payload = Some (HashLockTransfer p)\<rparr> = Response res
      \<and> (statusCode res = 200 \<or> statusCode res = 201 \<or> statusCode res = 204)
      \<and> stream res = Json b \<longrightarrow>
        (preImage b = None \<or> (\<exists>s. preImage b = Some s \<and> \<not> (\<exists>t. s = ''0x'' @ t)) \<longrightarrow>
           fst (executeHashLockTransfer net p c) =
             Rejected (ConnextError INVALID_TOKEN_PAYMENT_RESPONSE))
      \<and> (\<forall>t. preImage b = Some (''0x'' @ t) \<longrightarrow>
           fst (executeHashLockTransfer net p c) = Resolved t))
   \<and> (net \<lparr>endpoint = ''/hashlock-resolve'', httpMethod = ''POST'',
            payload = Some (HashLockResolve pre)\<rparr> = Response res'
      \<and> (statusCode res' = 200 \<or> statusCode res' = 201 \<or> statusCode res' = 204) \<longrightarrow>
        (\<not> (\<exists>t. pre = ''0x'' @ t) \<longrightarrow>
           fst (executeHashLockResolve net pre c) =
             Rejected (ConnextError INVALID_TOKEN_PAYMENT_RESPONSE))
      \<and> (\<forall>t. pre = ''0x'' @ t \<longrightarrow>
           fst (executeHashLockResolve net pre c) = Resolved t))"
proof (intro conjI impI allI)
  assume h: "net \<lparr>endpoint = ''/hashlock-transfer'', httpMethod = ''POST'',
          payload = Some (HashLockTransfer p)\<rparr> = Response res
      \<and> (statusCode res = 200 \<or> statusCode res = 201 \<or> statusCode res = 204)
      \<and> stream res = Json b"
  then have tr: "fst (executeHashLockTransfer net p c) =
      (case preImage b of
         Some s \<Rightarrow> if startsWith0x s then Resolved (slice2 s)
                   else Rejected (ConnextError INVALID_TOKEN_PAYMENT_RESPONSE)
       | None \<Rightarrow> Rejected (ConnextError INVALID_TOKEN_PAYMENT_RESPONSE))"
    by (auto simp: executeHashLockTransfer_def sendRequest_response startsWith0x_def
          split: option.splits)
  {
    assume "preImage b = None \<or> (\<exists>s. preImage b = Some s \<and> \<not> (\<exists>t. s = ''0x'' @ t))"
    then show "fst (executeHashLockTransfer net p c) =
        Rejected (ConnextError INVALID_TOKEN_PAYMENT_RESPONSE)"
      using tr by (auto simp: startsWith0x_iff)
  next
    fix t assume "preImage b = Some (''0x'' @ t)"
    then show "fst (executeHashLockTransfer net p c) = Resolved t"
      using tr by (simp add: startsWith0x_def slice2_def)
  }
next
  assume h: "net \<lparr>endpoint = ''/hashlock-resolve'', httpMethod = ''POST'',
            payload = Some (HashLockResolve pre)\<rparr> = Response res'
      \<and> (statusCode res' = 200 \<or> statusCode res' = 201 \<or> statusCode res' = 204)"
  then have rs: "fst (executeHashLockResolve net pre c) =
      (if startsWith0x pre then Resolved (slice2 pre)
       else Rejected (ConnextError INVALID_TOKEN_PAYMENT_RESPONSE))"
    by (auto simp: executeHashLockResolve_def sendRequest_response startsWith0x_def)
  {
    assume "\<not> (\<exists>t. pre = ''0x'' @ t)"
    then show "fst (executeHashLockResolve net pre c) =
        Rejected (ConnextError INVALID_TOKEN_PAYMENT_RESPONSE)"
      using rs by (simp add: startsWith0x_iff)
  next
    fix t assume "pre = ''0x'' @ t"
    then show "fst (executeHashLockResolve net pre c) = Resolved t"
      using rs by (simp add: startsWith0x_def slice2_def)
  }
qed

text \<open>
  C3 at the preimages \<^verbatim>\<open>0xabcd\<close> (accepted, \<^verbatim>\<open>abcd\<close> returned), \<^verbatim>\<open>abcd\<close> and a
  missing one (both refused).
\<close>

theorem hashLock_preimage_prefix_witness:
  "fst (executeHashLockTransfer
      (answering \<lparr>statusCode = 200, stream = Json (transferred (Some ''0xabcd''))\<rparr>)
      examplePayment exampleClient) = Resolved ''abcd''
   \<and> fst (executeHashLockTransfer
      (answering \<lparr>statusCode = 200, stream = Json (transferred (Some ''abcd''))\<rparr>)
      examplePayment exampleClient) = Rejected (ConnextError INVALID_TOKEN_PAYMENT_RESPONSE)
   \<and> fst (executeHashLockTransfer
      (answering \<lparr>statusCode = 200, stream = Json (transferred None)\<rparr>)
      examplePayment exampleClient) = Rejected (ConnextError INVALID_TOKEN_PAYMENT_RESPONSE)
   \<and> fst (executeHashLockResolve
      (answering \<lparr>statusCode = 200, stream = Json (transferred None)\<rparr>)
      ''0xabcd'' exampleClient) = Resolved ''abcd''
   \<and> fst (executeHashLockResolve
      (answering \<lparr>statusCode = 200, stream = Json (transferred None)\<rparr>)
      ''abcd'' exampleClient) = Rejected (ConnextError INVALID_TOKEN_PAYMENT_RESPONSE)"
  using
    hashLock_preimage_prefix [of
      "answering \<lparr>statusCode = 200, stream = Json (transferred (Some ''0xabcd''))\<rparr>"
      examplePayment "\<lparr>statusCode = 200, stream = Json (transferred (Some ''0xabcd''))\<rparr>"
      "transferred (Some ''0xabcd'')" exampleClient "''0xabcd''"
      "\<lparr>statusCode = 200, stream = Json (transferred (Some ''0xabcd''))\<rparr>"]
    hashLock_preimage_prefix [of
      "answering \<lparr>statusCode = 200, stream = Json (transferred (Some ''abcd''))\<rparr>"
      examplePayment "\<lparr>statusCode = 200, stream = Json (transferred (Some ''abcd''))\<rparr>"
      "transferred (Some ''abcd'')" exampleClient "''abcd''"
      "\<lparr>statusCode = 200, stream = Json (transferred (Some ''abcd''))\<rparr>"]
    hashLock_preimage_prefix [of
      "answering \<lparr>statusCode = 200, stream = Json (transferred None)\<rparr>"
      examplePayment "\<lparr>statusCode = 200, stream = Json (transferred None)\<rparr>"
      "transferred None" exampleClient "''0xabcd''"
      "\<lparr>statusCode = 200, stream = Json (transferred None)\<rparr>"]
    hashLock_preimage_prefix [of
      "answering \<lparr>statusCode = 200, stream = Json (transferred None)\<rparr>"
      examplePayment "\<lparr>statusCode = 200, stream = Json (transferred None)\<rparr>"
      "transferred None" exampleClient "''abcd''"
      "\<lparr>statusCode = 200, stream = Json (transferred None)\<rparr>"]
  by (simp add: answering_def transferred_def)

subsection \<open>Status codes\<close>

text \<open>
  C4. For a response received by \<^verbatim>\<open>sendRequest\<close>: the status codes 200, 201 and 204
  resolve with the response; 402 rejects with \<^verbatim>\<open>INSUFFICIENT_BALANCE\<close>, 408 with
  \<^verbatim>\<open>TIMEOUT\<close>, 409 with the message that the parsed body carries (the value of
  \<^verbatim>\<open>body.message\<close>: a string, or \<^verbatim>\<open>undefined\<close> when the body has none), 500 with
  \<^verbatim>\<open>SERVER_ERROR\<close>, and every other status code with \<^verbatim>\<open>UNEXPECTED\<close>.
\<close>

theorem sendRequest_status:
  assumes "net \<lparr>endpoint = ep, httpMethod = m, payload = p\<rparr> = Response res"
  shows "(statusCode res = 200 \<or> statusCode res = 201 \<or> statusCode res = 204 \<longrightarrow>
            fst (sendRequest net ep m p c) = Resolved res)
       \<and> (statusCode res = 402 \<longrightarrow>
            fst (sendRequest net ep m p c) = Rejected (ConnextError INSUFFICIENT_BALANCE))
       \<and> (statusCode res = 408 \<longrightarrow>
            fst (sendRequest net ep m p c) = Rejected (ConnextError TIMEOUT))
       \<and> (\<forall>b. statusCode res = 409 \<and> stream res = Json b \<longrightarrow>
            fst (sendRequest net ep m p c) =
              Rejected (case message b of None \<Rightarrow> Undefined | Some t \<Rightarrow> BareString t))
       \<and> (statusCode res = 500 \<longrightarrow>
            fst (sendRequest net ep m p c) = Rejected (ConnextError SERVER_ERROR))
       \<and> (statusCode res \<notin> {200, 201, 204, 402, 408, 409, 500} \<longrightarrow>
            fst (sendRequest net ep m p c) = Rejected (ConnextError UNEXPECTED))"
  using assms by (simp add: sendRequest_response)

text \<open>
  C4 at the status codes 204, 402, 408, 409 (with the body \<^verbatim>\<open>{"message":"busy"}\<close> and
  with the body \<^verbatim>\<open>{}\<close>), 500 and 404.
\<close>

theorem sendRequest_status_witness:
  "fst (sendRequest (answering \<lparr>statusCode = 204, stream = NotJson\<rparr>) ''/health'' ''GET'' None
      exampleClient) = Resolved \<lparr>statusCode = 204, stream = NotJson\<rparr>
   \<and> fst (sendRequest (answering \<lparr>statusCode = 402, stream = NotJson\<rparr>) ''/health'' ''GET'' None
      exampleClient) = Rejected (ConnextError INSUFFICIENT_BALANCE)
   \<and> fst (sendRequest (answering \<lparr>statusCode = 408, stream = NotJson\<rparr>) ''/health'' ''GET'' None
      exampleClient) = Rejected (ConnextError TIMEOUT)
   \<and> fst (sendRequest (answering \<lparr>statusCode = 409, stream = Json (conflict (Some ''busy''))\<rparr>)
      ''/health'' ''GET'' None exampleClient) = Rejected (BareString ''busy'')
   \<and> fst (sendRequest (answering \<lparr>statusCode = 409, stream = Json (conflict None)\<rparr>)
      ''/health'' ''GET'' None exampleClient) = Rejected Undefined
   \<and> fst (sendRequest (answering \<lparr>statusCode = 500, stream = NotJson\<rparr>) ''/health'' ''GET'' None
      exampleClient) = Rejected (ConnextError SERVER_ERROR)
   \<and> fst (sendRequest (answering \<lparr>statusCode = 404, stream = NotJson\<rparr>) ''/health'' ''GET'' None
      exampleClient) = Rejected (ConnextError UNEXPECTED)"
  using
    sendRequest_status [of "answering \<lparr>statusCode = 204, stream = NotJson\<rparr>"
      "''/health''" "''GET''" None "\<lparr>statusCode = 204, stream = NotJson\<rparr>" exampleClient]
    sendRequest_status [of "answering \<lparr>statusCode = 402, stream = NotJson\<rparr>"
      "''/health''" "''GET''" None "\<lparr>statusCode = 402, stream = NotJson\<rparr>" exampleClient]
    sendRequest_status [of "answering \<lparr>statusCode = 408, stream = NotJson\<rparr>"
      "''/health''" "''GET''" None "\<lparr>statusCode = 408, stream = NotJson\<rparr>" exampleClient]
    sendRequest_status [of
      "answering \<lparr>statusCode = 409, stream = Json (conflict (Some ''busy''))\<rparr>"
      "''/health''" "''GET''" None
      "\<lparr>statusCode = 409, stream = Json (conflict (Some ''busy''))\<rparr>" exampleClient]
    sendRequest_status [of "answering \<lparr>statusCode = 409, stream = Json (conflict None)\<rparr>"
      "''/health''" "''GET''" None "\<lparr>statusCode = 409, stream = Json (conflict None)\<rparr>"
      exampleClient]
    sendRequest_status [of "answering \<lparr>statusCode = 500, stream = NotJson\<rparr>"
      "''/health''" "''GET''" None "\<lparr>statusCode = 500, stream = NotJson\<rparr>" exampleClient]
    sendRequest_status [of "answering \<lparr>statusCode = 404, stream = NotJson\<rparr>"
      "''/health''" "''GET''" None "\<lparr>statusCode = 404, stream = NotJson\<rparr>" exampleClient]
  by (simp add: answering_def conflict_def)

subsection \<open>The errors of sendPayment\<close>

lemma sendPaymentCatch_kind:
  assumes "err \<noteq> Undefined"
  shows "sendPaymentCatch err =
     SwapError
       (if (\<exists>n. err = NodeError n \<and> errCode n = Some ''ECONNRESET'')
           \<or> err = ConnextError UNEXPECTED \<or> err = ConnextError TIMEOUT
           \<or> err = ConnextError SERVER_ERROR
           \<or> err = ConnextError INVALID_TOKEN_PAYMENT_RESPONSE
        then UNKNOWN_PAYMENT_ERROR else FINAL_PAYMENT_ERROR)
       (messageOf err)"
  using assms by (cases err) (auto simp: sendPaymentCatch_def)

lemma sendPayment_active:
  assumes "state deal = Active" and "truthy (destination deal)"
  shows "fst (sendPayment net deal c) =
     (case fst (sendPaymentTry net deal c) of
        Resolved secret \<Rightarrow> Resolved secret
      | Rejected err \<Rightarrow> Rejected (sendPaymentCatch err)
      | Unsettled \<Rightarrow> Unsettled)"
  using assms by (auto simp: sendPayment_def split: prod.splits promise.splits)

text \<open>
  What holds of the classification. For an active deal with a destination, every
  rejection of the \<^verbatim>\<open>try\<close> block with a value other than \<^verbatim>\<open>undefined\<close> reaches
  the caller as one of two kinds: an error with code \<^verbatim>\<open>ECONNRESET\<close>,
  \<^verbatim>\<open>UNEXPECTED\<close>, \<^verbatim>\<open>TIMEOUT\<close>, \<^verbatim>\<open>SERVER_ERROR\<close> or
  \<^verbatim>\<open>INVALID_TOKEN_PAYMENT_RESPONSE\<close> as \<^verbatim>\<open>UNKNOWN_PAYMENT_ERROR\<close>, every other one
  (\<^verbatim>\<open>INSUFFICIENT_BALANCE\<close> among them) as \<^verbatim>\<open>FINAL_PAYMENT_ERROR\<close>, each around
  the message of the error caught. Whatever \<^verbatim>\<open>sendPayment\<close> rejects with is one of
  the two kinds or the \<^verbatim>\<open>TypeError\<close> of the \<^verbatim>\<open>catch\<close> block.
\<close>

lemma sendPayment_classified:
  assumes "state deal = Active" and "truthy (destination deal)"
    and "fst (sendPaymentTry net deal c) = Rejected err" and "err \<noteq> Undefined"
  shows "fst (sendPayment net deal c) =
           Rejected (SwapError
             (if (\<exists>n. err = NodeError n \<and> errCode n = Some ''ECONNRESET'')
                 \<or> err = ConnextError UNEXPECTED \<or> err = ConnextError TIMEOUT
                 \<or> err = ConnextError SERVER_ERROR
                 \<or> err = ConnextError INVALID_TOKEN_PAYMENT_RESPONSE
              then UNKNOWN_PAYMENT_ERROR else FINAL_PAYMENT_ERROR)
             (messageOf err))"
proof -
  have "fst (sendPayment net deal c) = Rejected (sendPaymentCatch err)"
    using assms(3) by (simp add: sendPayment_active [OF assms(1,2)])
  then show ?thesis
    by (simp only: sendPaymentCatch_kind [OF assms(4)])
qed

lemma sendPayment_rejections:
  assumes "state deal = Active" and "truthy (destination deal)"
    and "fst (sendPayment net deal c) = Rejected x"
  shows "x = TypeError \<or> (\<exists>m. x = SwapError UNKNOWN_PAYMENT_ERROR m \<or> x = SwapError FINAL_PAYMENT_ERROR m)"
proof -
  from assms(3) obtain err where "x = sendPaymentCatch err"
    by (auto simp: sendPayment_active [OF assms(1,2)] split: promise.splits)
  then show ?thesis
    by (auto simp: sendPaymentCatch_def)
qed

text \<open>
  The classification at a backend that answers 402 (final), at one that answers 409
  with the body \<^verbatim>\<open>{"message":"busy"}\<close> (final, and the message of the body is lost:
  a string has no \<^verbatim>\<open>message\<close>), and at a connection reset (unknown).
\<close>

lemma sendPayment_classified_examples:
  "fst (sendPayment (answering \<lparr>statusCode = 402, stream = NotJson\<rparr>) takerDeal exampleClient)
       = Rejected (SwapError FINAL_PAYMENT_ERROR (Some (ErrorsMessage INSUFFICIENT_BALANCE)))
   \<and> fst (sendPayment (answering \<lparr>statusCode = 409, stream = Json (conflict (Some ''busy''))\<rparr>)
        takerDeal exampleClient)
       = Rejected (SwapError FINAL_PAYMENT_ERROR None)
   \<and> fst (sendPayment (failing \<lparr>errCode = Some ''ECONNRESET'', errMessage = ''socket hang up''\<rparr>)
        takerDeal exampleClient)
       = Rejected (SwapError UNKNOWN_PAYMENT_ERROR (Some (Text ''socket hang up'')))"
  by (simp add: sendPayment_def sendPaymentTry_def sendPaymentCatch_def
        executeHashLockTransfer_def sendRequest_def Let_def answering_def failing_def
        takerDeal_def conflict_def)

text \<open>
  C5, at the inputs where the code departs from it. For the active taker deal with a
  destination, against a backend that answers the transfer request with status 409
  and the JSON body \<^verbatim>\<open>{}\<close>: \<^verbatim>\<open>sendRequest\<close> rejects with \<^verbatim>\<open>body.message\<close>, which
  is \<^verbatim>\<open>undefined\<close>; the \<^verbatim>\<open>catch\<close> block of \<^verbatim>\<open>sendPayment\<close> evaluates
  \<^verbatim>\<open>err.code\<close>, which raises a \<^verbatim>\<open>TypeError\<close>; that error, neither an
  unknown-payment nor a final-payment error, is what the caller gets. Against a
  backend that answers with status 204 (a success for \<^verbatim>\<open>sendRequest\<close>) and the empty
  body that comes with it, \<^verbatim>\<open>JSON.parse\<close> throws inside the \<^verbatim>\<open>'end'\<close> listener of
  \<^verbatim>\<open>parseResponseBody\<close>: the error never reaches the \<^verbatim>\<open>catch\<close> block, and
  \<^verbatim>\<open>sendPayment\<close> neither returns nor fails.
\<close>

theorem sendPayment_unclassified_error:
  "state takerDeal = Active \<and> truthy (destination takerDeal)
   \<and> fst (sendPaymentTry (answering \<lparr>statusCode = 409, stream = Json (conflict None)\<rparr>)
        takerDeal exampleClient) = Rejected Undefined
   \<and> fst (sendPayment (answering \<lparr>statusCode = 409, stream = Json (conflict None)\<rparr>)
        takerDeal exampleClient) = Rejected TypeError
   \<and> fst (sendPayment (answering \<lparr>statusCode = 204, stream = NotJson\<rparr>)
        takerDeal exampleClient) = Unsettled"
  by (simp add: sendPayment_def sendPaymentTry_def sendPaymentCatch_def
        executeHashLockTransfer_def sendRequest_def Let_def answering_def
        takerDeal_def conflict_def)

subsection \<open>lookupPayment\<close>

lemma getHashLockStatus_response:
  assumes "net \<lparr>endpoint = ''/hashlock-status/'' @ h, httpMethod = ''GET'', payload = None\<rparr>
             = Response res"
  shows "fst (getHashLockStatus net h c) =
    (if statusCode res = 200 \<or> statusCode res = 201 \<or> statusCode res = 204 then
       (case stream res of
          Json b \<Rightarrow> Resolved (status b)
        | StreamError err \<Rightarrow> Rejected (NodeError err)
        | NotJson \<Rightarrow> Unsettled)
     else if statusCode res = 402 then Rejected (ConnextError INSUFFICIENT_BALANCE)
     else if statusCode res = 408 then Rejected (ConnextError TIMEOUT)
     else if statusCode res = 409 then
       (case stream res of
          Json b \<Rightarrow> Rejected (case message b of None \<Rightarrow> Undefined | Some m \<Rightarrow> BareString m)
        | _ \<Rightarrow> Unsettled)
     else if statusCode res = 500 then Rejected (ConnextError SERVER_ERROR)
     else Rejected (ConnextError UNEXPECTED))"
  using assms
  by (simp add: getHashLockStatus_def sendRequest_response split: bodyStream.splits)

lemma getHashLockStatus_error:
  assumes "net \<lparr>endpoint = ''/hashlock-status/'' @ h, httpMethod = ''GET'', payload = None\<rparr>
             = RequestError err"
  shows "fst (getHashLockStatus net h c) = Rejected (NodeError err)"
  using assms by (simp add: getHashLockStatus_def sendRequest_def Let_def)

text \<open>
  What \<^verbatim>\<open>lookupPayment\<close> makes of the status query: a status becomes a payment
  state, every rejection becomes \<^verbatim>\<open>PAYMENT_NOT_FOUND\<close>, and a query that does not
  settle leaves \<^verbatim>\<open>lookupPayment\<close> unsettled.
\<close>

lemma lookupPayment_outcome:
  "fst (lookupPayment net h c) =
     (case fst (getHashLockStatus net h c) of
        Resolved s \<Rightarrow> Resolved (paymentStateOf s)
      | Rejected e \<Rightarrow> Rejected (ConnextError PAYMENT_NOT_FOUND)
      | Unsettled \<Rightarrow> Unsettled)"
  by (auto simp: lookupPayment_def split: prod.splits promise.splits)

lemma lookupPayment_rejects_not_found:
  "fst (lookupPayment net h c) = Rejected x \<Longrightarrow> x = ConnextError PAYMENT_NOT_FOUND"
  by (auto simp: lookupPayment_outcome split: promise.splits)

lemma paymentStateOf_other:
  "s \<notin> {''PENDING'', ''COMPLETED'', ''EXPIRED'', ''FAILED''} \<Longrightarrow> paymentStateOf s = PaymentFailed"
  by (simp add: paymentStateOf_def)

lemma lookupPayment_request_error:
  assumes "net \<lparr>endpoint = ''/hashlock-status/'' @ h, httpMethod = ''GET'', payload = None\<rparr>
             = RequestError err"
  shows "fst (lookupPayment net h c) = Rejected (ConnextError PAYMENT_NOT_FOUND)"
  using assms by (simp add: lookupPayment_outcome getHashLockStatus_error)

text \<open>
  C6. When the backend answers the status query with a success status and a parsed
  body, \<^verbatim>\<open>lookupPayment\<close> returns \<open>Pending\<close> for the status \<^verbatim>\<open>PENDING\<close>,
  \<open>Succeeded\<close> for \<^verbatim>\<open>COMPLETED\<close> and \<open>Failed\<close> for \<^verbatim>\<open>EXPIRED\<close> and \<^verbatim>\<open>FAILED\<close>;
  whatever it returns is one of these three states. When the backend has no record
  of the payment and answers 404, and whenever the status query is rejected,
  \<^verbatim>\<open>lookupPayment\<close> fails with \<^verbatim>\<open>PAYMENT_NOT_FOUND\<close>.
\<close>

theorem lookupPayment_states:
  "(net \<lparr>endpoint = ''/hashlock-status/'' @ h, httpMethod = ''GET'', payload = None\<rparr> = Response res
      \<and> (statusCode res = 200 \<or> statusCode res = 201 \<or> statusCode res = 204)
      \<and> stream res = Json b \<longrightarrow>
        (status b = ''PENDING'' \<longrightarrow> fst (lookupPayment net h c) = Resolved PaymentPending)
      \<and> (status b = ''COMPLETED'' \<longrightarrow> fst (lookupPayment net h c) = Resolved PaymentSucceeded)
      \<and> (status b = ''EXPIRED'' \<or> status b = ''FAILED'' \<longrightarrow>
           fst (lookupPayment net h c) = Resolved PaymentFailed))
   \<and> (\<forall>s. fst (lookupPayment net h c) = Resolved s \<longrightarrow>
        s = PaymentPending \<or> s = PaymentSucceeded \<or> s = PaymentFailed)
   \<and> (net \<lparr>endpoint = ''/hashlock-status/'' @ h, httpMethod = ''GET'', payload = None\<rparr> = Response res
      \<and> statusCode res = 404 \<longrightarrow>
        fst (lookupPayment net h c) = Rejected (ConnextError PAYMENT_NOT_FOUND))
   \<and> (\<forall>e. fst (getHashLockStatus net h c) = Rejected e \<longrightarrow>
        fst (lookupPayment net h c) = Rejected (ConnextError PAYMENT_NOT_FOUND))"
proof (intro conjI allI impI)
  fix s show "s = PaymentPending \<or> s = PaymentSucceeded \<or> s = PaymentFailed"
    by (cases s) simp_all
qed (auto simp: lookupPayment_outcome getHashLockStatus_response paymentStateOf_def)

text \<open>C6 at the four statuses of the backend and at a 404.\<close>

theorem lookupPayment_states_witness:
  "fst (lookupPayment (answering \<lparr>statusCode = 200, stream = Json (lockStatus ''PENDING'')\<rparr>)
      ''0xhash'' exampleClient) = Resolved PaymentPending
   \<and> fst (lookupPayment (answering \<lparr>statusCode = 200, stream = Json (lockStatus ''COMPLETED'')\<rparr>)
      ''0xhash'' exampleClient) = Resolved PaymentSucceeded
   \<and> fst (lookupPayment (answering \<lparr>statusCode = 200, stream = Json (lockStatus ''EXPIRED'')\<rparr>)
      ''0xhash'' exampleClient) = Resolved PaymentFailed
   \<and> fst (lookupPayment (answering \<lparr>statusCode = 200, stream = Json (lockStatus ''FAILED'')\<rparr>)
      ''0xhash'' exampleClient) = Resolved PaymentFailed
   \<and> fst (lookupPayment (answering \<lparr>statusCode = 404, stream = NotJson\<rparr>)
      ''0xhash'' exampleClient) = Rejected (ConnextError PAYMENT_NOT_FOUND)"
  using
    lookupPayment_states [of "answering \<lparr>statusCode = 200, stream = Json (lockStatus ''PENDING'')\<rparr>"
      "''0xhash''" "\<lparr>statusCode = 200, stream = Json (lockStatus ''PENDING'')\<rparr>"
      "lockStatus ''PENDING''" exampleClient]
    lookupPayment_states [of "answering \<lparr>statusCode = 200, stream = Json (lockStatus ''COMPLETED'')\<rparr>"
      "''0xhash''" "\<lparr>statusCode = 200, stream = Json (lockStatus ''COMPLETED'')\<rparr>"
      "lockStatus ''COMPLETED''" exampleClient]
    lookupPayment_states [of "answering \<lparr>statusCode = 200, stream = Json (lockStatus ''EXPIRED'')\<rparr>"
      "''0xhash''" "\<lparr>statusCode = 200, stream = Json (lockStatus ''EXPIRED'')\<rparr>"
      "lockStatus ''EXPIRED''" exampleClient]
    lookupPayment_states [of "answering \<lparr>statusCode = 200, stream = Json (lockStatus ''FAILED'')\<rparr>"
      "''0xhash''" "\<lparr>statusCode = 200, stream = Json (lockStatus ''FAILED'')\<rparr>"
      "lockStatus ''FAILED''" exampleClient]
    lookupPayment_states [of "answering \<lparr>statusCode = 404, stream = NotJson\<rparr>"
      "''0xhash''" "\<lparr>statusCode = 404, stream = NotJson\<rparr>"
      "lockStatus ''FAILED''" exampleClient]
  by (simp add: answering_def lockStatus_def)

text \<open>
  C9, at the inputs where the code departs from it. \<^verbatim>\<open>sendRequest\<close> takes 204 for
  a success, and the body of a 204 is empty: \<^verbatim>\<open>JSON.parse\<close> throws inside the
  \<^verbatim>\<open>'end'\<close> listener of \<^verbatim>\<open>parseResponseBody\<close>, the promise of the status query
  never settles, and \<^verbatim>\<open>lookupPayment\<close> neither returns a state nor fails with
  \<^verbatim>\<open>PAYMENT_NOT_FOUND\<close>. The same holds for a 409 whose body stream emits an error:
  the callback of \<^verbatim>\<open>sendRequest\<close> awaits the body with no handler.
\<close>

theorem lookupPayment_never_settles:
  "fst (lookupPayment (answering \<lparr>statusCode = 204, stream = NotJson\<rparr>) ''0xhash'' exampleClient)
     = Unsettled
   \<and> fst (lookupPayment
        (answering \<lparr>statusCode = 409,
           stream = StreamError \<lparr>errCode = Some ''ECONNRESET'', errMessage = ''aborted''\<rparr>\<rparr>)
        ''0xhash'' exampleClient)
     = Unsettled"
  by (simp add: lookupPayment_def getHashLockStatus_def sendRequest_def Let_def answering_def)

subsection \<open>Initialisation and balances\<close>

text \<open>
  C7. Without a seed (\<^verbatim>\<open>setSeed\<close> never called, or called with the empty string),
  \<^verbatim>\<open>initSpecific\<close> fails with the error
  \<^verbatim>\<open>Cannot initialize ConnextClient without seed\<close> (the missing credentials of the
  spec) and leaves the client as it was: no request is sent and the status is not
  advanced.
\<close>

theorem initSpecific_without_seed:
  assumes "\<not> truthy (seed c)"
  shows "initSpecific verify net c =
           (Rejected (Error ''Cannot initialize ConnextClient without seed''), c)
       \<and> sent (snd (initSpecific verify net c)) = sent c
       \<and> clientStatus (snd (initSpecific verify net c)) = clientStatus c"
  using assms by (simp add: initSpecific_def)

text \<open>C7 at a client that was never given a seed.\<close>

theorem initSpecific_without_seed_witness:
  "\<not> truthy (seed exampleClient)
   \<and> initSpecific (\<lambda>c. (Resolved (), c))
        (answering \<lparr>statusCode = 200, stream = Json (lockStatus [])\<rparr>) exampleClient
       = (Rejected (Error ''Cannot initialize ConnextClient without seed''), exampleClient)
   \<and> sent (snd (initSpecific (\<lambda>c. (Resolved (), c))
        (answering \<lparr>statusCode = 200, stream = Json (lockStatus [])\<rparr>) exampleClient)) = []
   \<and> clientStatus (snd (initSpecific (\<lambda>c. (Resolved (), c))
        (answering \<lparr>statusCode = 200, stream = Json (lockStatus [])\<rparr>) exampleClient))
       = NotInitialized"
proof -
  have s: "\<not> truthy (seed exampleClient)" by (simp add: exampleClient_def)
  have e: "sent exampleClient = []" "clientStatus exampleClient = NotInitialized"
    by (simp_all add: exampleClient_def)
  show ?thesis
    using s e initSpecific_without_seed [OF s, of "\<lambda>c. (Resolved (), c)"
        "answering \<lparr>statusCode = 200, stream = Json (lockStatus [])\<rparr>"]
    by simp
qed

text \<open>With a seed and a backend that answers, the same client is initialised.\<close>

lemma initSpecific_with_seed:
  "initSpecific (\<lambda>c. (Resolved (), c))
      (answering \<lparr>statusCode = 200, stream = Json (lockStatus [])\<rparr>)
      (setSeed ''seed'' exampleClient)
   = (Resolved (),
      \<lparr>seed = Some ''seed'', clientStatus = Initialized,
       tokenAddresses = [''ETH'' \<mapsto> ''0xeeee'', ''DAI'' \<mapsto> ''0xdddd''],
       emitted = [''initialized''],
       sent = [\<lparr>endpoint = ''/connect'', httpMethod = ''POST'', payload = None\<rparr>]\<rparr>)"
  by (simp add: initSpecific_def initConnextClient_def sendRequest_def Let_def setSeed_def
        setStatus_def answering_def exampleClient_def)

text \<open>
  C8. \<^verbatim>\<open>channelBalance\<close> without a currency returns the balance
  \<^verbatim>\<open>{balance: 0, pendingOpenBalance: 0, inactiveBalance: 0}\<close> and leaves the client
  as it was: no request is sent.
\<close>

theorem channelBalance_no_currency:
  "channelBalance unitsToAmount toNumber net None c =
     (Resolved \<lparr>balance = 0, pendingOpenBalance = 0, inactiveBalance = 0\<rparr>, c)
   \<and> sent (snd (channelBalance unitsToAmount toNumber net None c)) = sent c"
  by (simp add: channelBalance_def)

section \<open>Properties of the order packet\<close>

subsection \<open>Digits\<close>

lemma digitsOf_digits: "c \<in> set (digitsOf n) \<Longrightarrow> isDigit c"
proof (induction n arbitrary: c rule: digitsOf.induct)
  case (1 n)
  show ?case
  proof (cases "n < 10")
    case True
    with "1.prems" show ?thesis by (simp add: digitsOf.simps [of n] isDigit_def)
  next
    case False
    with "1.prems" have "c \<in> set (digitsOf (n div 10)) \<or> c = 48 + n mod 10"
      by (auto simp: digitsOf.simps [of n])
    then show ?thesis
    proof
      assume "c \<in> set (digitsOf (n div 10))"
      with False "1.IH" show ?thesis by simp
    next
      assume "c = 48 + n mod 10"
      then show ?thesis by (simp add: isDigit_def)
    qed
  qed
qed

lemma digitsOf_nonempty: "digitsOf n \<noteq> []"
  by (simp add: digitsOf.simps [of n])

lemma valueOf_snoc: "valueOf (ds @ [d]) = 10 * valueOf ds + (d - 48)"
  by (simp add: valueOf_def)

lemma valueOf_Nil: "valueOf [] = 0"
  by (simp add: valueOf_def)

lemma valueOf_append: "valueOf (xs @ ys) = valueOf xs * 10 ^ length ys + valueOf ys"
proof (induction ys rule: rev_induct)
  case Nil
  then show ?case by (simp add: valueOf_Nil)
next
  case (snoc y ys)
  have "valueOf (xs @ ys @ [y]) = 10 * valueOf (xs @ ys) + (y - 48)"
    using valueOf_snoc [of "xs @ ys" y] by simp
  with snoc show ?case by (simp add: valueOf_snoc algebra_simps)
qed

lemma valueOf_digitsOf: "valueOf (digitsOf n) = n"
proof (induction n rule: digitsOf.induct)
  case (1 n)
  show ?case
  proof (cases "n < 10")
    case True
    then show ?thesis by (simp add: digitsOf.simps [of n] valueOf_def)
  next
    case False
    with "1.IH" have "valueOf (digitsOf (n div 10)) = n div 10" by simp
    with False show ?thesis by (simp add: digitsOf.simps [of n] valueOf_snoc)
  qed
qed

lemma hd_digitsOf: "0 < n \<Longrightarrow> hd (digitsOf n) \<noteq> 48"
proof (induction n rule: digitsOf.induct)
  case (1 n)
  show ?case
  proof (cases "n < 10")
    case True
    with "1.prems" show ?thesis by (simp add: digitsOf.simps [of n])
  next
    case False
    then have "0 < n div 10" by simp
    with False "1.IH" have "hd (digitsOf (n div 10)) \<noteq> 48" by simp
    with False show ?thesis
      by (simp add: digitsOf.simps [of n] hd_append digitsOf_nonempty)
  qed
qed

lemma valueOf_zeros: "valueOf (replicate z 48) = 0"
proof (induction z)
  case 0
  then show ?case by (simp add: valueOf_Nil)
next
  case (Suc z)
  have "replicate (Suc z) (48::nat) = replicate z 48 @ [48]"
    by (simp add: replicate_append_same)
  with Suc show ?case by (simp only: valueOf_snoc)
qed

lemma normalise_canonical: "m \<noteq> 0 \<Longrightarrow> \<not> 10 dvd m \<Longrightarrow> normalise m e = (m, e)"
  by (simp add: normalise.simps [of m e])

lemma normalise_zero: "normalise 0 e = (0, 0)"
  by (simp add: normalise.simps [of 0 e])

lemma normalise_shift: "m \<noteq> 0 \<Longrightarrow> normalise (m * 10 ^ z) e = normalise m (e + int z)"
proof (induction z arbitrary: e)
  case 0
  then show ?case by simp
next
  case (Suc z)
  have "normalise (m * 10 ^ Suc z) e = normalise (m * 10 ^ z) (e + 1)"
    using Suc.prems by (subst normalise.simps) simp
  also have "\<dots> = normalise m (e + 1 + int z)" using Suc by simp
  finally show ?case by (simp add: ac_simps)
qed

text \<open>
  Every decimal has a canonical form, and \<^verbatim>\<open>Number::toString\<close> prints the decimal as
  it prints that form.
\<close>

lemma normalise_result:
  "normalise m e = (s, x) \<Longrightarrow> (if s = 0 then x = 0 else \<not> 10 dvd s)"
proof (induction m e arbitrary: s x rule: normalise.induct)
  case (1 m e)
  show ?case
  proof (cases "m = 0")
    case True
    with "1.prems" show ?thesis by (auto simp: normalise_zero)
  next
    case False
    show ?thesis
    proof (cases "10 dvd m")
      case True
      with False "1.prems" have "normalise (m div 10) (e + 1) = (s, x)"
        by (simp add: normalise.simps [of m e])
      with False True "1.IH" show ?thesis by simp
    next
      case nd: False
      with False "1.prems" show ?thesis by (auto simp: normalise.simps [of m e])
    qed
  qed
qed

lemma canonical_finiteNumber: "canonical (finiteNumber m e)"
proof -
  obtain s x where n: "normalise m e = (s, x)" by (cases "normalise m e")
  from normalise_result [OF n] show ?thesis by (simp add: finiteNumber_def n)
qed

lemma numberToString_finiteNumber:
  "numberToString (finiteNumber m e) = numberToString (Finite m e)"
proof -
  obtain s x where n: "normalise m e = (s, x)" by (cases "normalise m e")
  have "normalise s x = (s, x)"
  proof (cases "s = 0")
    case True
    with normalise_result [OF n] show ?thesis by (simp add: normalise_zero)
  next
    case False
    with normalise_result [OF n] show ?thesis by (simp add: normalise_canonical)
  qed
  then show ?thesis by (simp add: finiteNumber_def n)
qed

subsection \<open>Reading what Number::toString prints\<close>

lemma stops_takeWhile: "stops rest \<Longrightarrow> takeWhile isDigit rest = []"
  by (cases rest) (simp_all add: stops_def)

lemma stops_dropWhile: "stops rest \<Longrightarrow> dropWhile isDigit rest = rest"
  by (cases rest) (simp_all add: stops_def)

lemma span_digits:
  assumes "\<forall>c\<in>set ds. isDigit c" and "stops rest"
  shows "takeWhile isDigit (ds @ rest) = ds" and "dropWhile isDigit (ds @ rest) = rest"
  using assms by (simp_all add: stops_takeWhile stops_dropWhile)

lemma delimited_stops: "delimited rest \<Longrightarrow> stops rest"
  by (cases rest) (simp_all add: delimited_def stops_def)

lemma fraction_none: "delimited rest \<Longrightarrow> fraction rest = Some ([], rest)"
  by (cases rest) (simp_all add: delimited_def fraction_def)

lemma fraction_some:
  assumes "fs \<noteq> []" and "\<forall>c\<in>set fs. isDigit c" and "stops rest"
  shows "fraction (46 # fs @ rest) = Some (fs, rest)"
  using assms by (simp add: fraction_def stops_takeWhile stops_dropWhile)

lemma exponent_none: "delimited rest \<Longrightarrow> exponent rest = Some (0, rest)"
  by (cases rest) (simp_all add: delimited_def exponent_def)

lemma exponent_some:
  assumes "stops rest"
  shows "exponent (101 # (if x < 0 then 45 else 43) # digitsOf (nat \<bar>x\<bar>) @ rest) = Some (x, rest)"
  using assms
  by (simp add: exponent_def Let_def stops_takeWhile stops_dropWhile digitsOf_digits
        digitsOf_nonempty valueOf_digitsOf)

lemma stops_e: "stops (101 # cs)"
  by (simp add: stops_def isDigit_def)

lemma stops_dot: "stops (46 # cs)"
  by (simp add: stops_def isDigit_def)

lemma not_delimited_e: "fraction (101 # cs) = Some ([], 101 # cs)"
  by (simp add: fraction_def)

text \<open>
  The number grammar reads each of the four forms of \<^verbatim>\<open>Number::toString\<close>: the
  digits with zeros appended, the digits around a point, the digits after \<^verbatim>\<open>0.\<close>
  and zeros, and the two exponent forms.
\<close>

lemma isDigit_zero: "isDigit 48"
  by (simp add: isDigit_def)

lemma scan_integer:
  assumes "0 < s" and "delimited rest"
  shows "scanNumber ((digitsOf s @ replicate z 48) @ rest) = Some (s * 10 ^ z, 0, rest)"
proof -
  have dig: "\<forall>c\<in>set (digitsOf s @ replicate z 48). isDigit c"
    by (auto simp: digitsOf_digits isDigit_zero)
  have st: "stops rest" using assms(2) by (rule delimited_stops)
  have tw: "takeWhile isDigit ((digitsOf s @ replicate z 48) @ rest) = digitsOf s @ replicate z 48"
    and dw: "dropWhile isDigit ((digitsOf s @ replicate z 48) @ rest) = rest"
    using span_digits [OF dig st] by simp_all
  have hd: "hd (digitsOf s @ replicate z 48) \<noteq> 48"
    using hd_digitsOf [OF assms(1)] by (simp add: hd_append digitsOf_nonempty)
  have v: "valueOf (digitsOf s @ replicate z 48) = s * 10 ^ z"
    by (simp add: valueOf_append valueOf_digitsOf valueOf_zeros)
  show ?thesis
    unfolding scanNumber_def Let_def tw dw
    using hd v by (simp add: digitsOf_nonempty fraction_none [OF assms(2)]
        exponent_none [OF assms(2)])
qed

lemma scan_point:
  assumes "0 < s" and "delimited rest" and "0 < n" and "n < length (digitsOf s)"
  shows "scanNumber ((take n (digitsOf s) @ 46 # drop n (digitsOf s)) @ rest)
           = Some (s, - int (length (digitsOf s) - n), rest)"
proof -
  let ?ds = "digitsOf s"
  have dig: "\<forall>c\<in>set (take n ?ds). isDigit c"
    by (auto dest: in_set_takeD simp: digitsOf_digits)
  have tw: "takeWhile isDigit (take n ?ds @ (46 # drop n ?ds @ rest)) = take n ?ds"
    and dw: "dropWhile isDigit (take n ?ds @ (46 # drop n ?ds @ rest)) = 46 # drop n ?ds @ rest"
    using span_digits [OF dig stops_dot] by simp_all
  have ne: "take n ?ds \<noteq> []" using assms(3,4) by auto
  have hd: "hd (take n ?ds) \<noteq> 48"
    using hd_digitsOf [OF assms(1)] assms(3) by (simp add: hd_take)
  have fr: "fraction (46 # drop n ?ds @ rest) = Some (drop n ?ds, rest)"
    using assms(4) delimited_stops [OF assms(2)]
    by (intro fraction_some) (auto dest: in_set_dropD simp: digitsOf_digits)
  show ?thesis
    unfolding scanNumber_def Let_def
    using tw dw ne hd fr exponent_none [OF assms(2)]
    by (simp add: valueOf_digitsOf)
qed

lemma scan_small:
  assumes "0 < s" and "delimited rest"
  shows "scanNumber ((48 # 46 # replicate z 48 @ digitsOf s) @ rest)
           = Some (s, - int (z + length (digitsOf s)), rest)"
proof -
  let ?ds = "digitsOf s"
  have tw: "takeWhile isDigit (48 # 46 # replicate z 48 @ ?ds @ rest) = [48]"
    and dw: "dropWhile isDigit (48 # 46 # replicate z 48 @ ?ds @ rest)
               = 46 # replicate z 48 @ ?ds @ rest"
    by (simp_all add: isDigit_def)
  have fr: "fraction (46 # (replicate z 48 @ ?ds) @ rest) = Some (replicate z 48 @ ?ds, rest)"
    using delimited_stops [OF assms(2)]
    by (intro fraction_some) (auto simp: digitsOf_digits digitsOf_nonempty isDigit_zero)
  have "valueOf ([48] @ replicate z 48) = 0"
    using valueOf_zeros [of "Suc z"] by simp
  then have v: "valueOf ([48] @ replicate z 48 @ ?ds) = s"
    using valueOf_append [of "[48] @ replicate z 48" ?ds] by (simp add: valueOf_digitsOf)
  show ?thesis
    unfolding scanNumber_def Let_def
    using tw dw fr v exponent_none [OF assms(2)] by simp
qed

lemma scan_exponent_one:
  assumes "0 < s" and "delimited rest" and "length (digitsOf s) = 1"
  shows "scanNumber ((digitsOf s @ 101 # (if x < 0 then 45 else 43) # digitsOf (nat \<bar>x\<bar>)) @ rest)
           = Some (s, x, rest)"
proof -
  let ?ds = "digitsOf s"
  let ?tail = "101 # (if x < 0 then 45 else 43) # digitsOf (nat \<bar>x\<bar>) @ rest"
  have dig: "\<forall>c\<in>set ?ds. isDigit c" by (simp add: digitsOf_digits)
  have tw: "takeWhile isDigit (?ds @ ?tail) = ?ds" and dw: "dropWhile isDigit (?ds @ ?tail) = ?tail"
    using span_digits [OF dig stops_e] by simp_all
  have ex: "exponent ?tail = Some (x, rest)"
    using exponent_some [OF delimited_stops [OF assms(2)]] by simp
  show ?thesis
    unfolding scanNumber_def Let_def
    using tw dw ex assms(3) by (simp add: not_delimited_e valueOf_digitsOf digitsOf_nonempty)
qed

lemma scan_exponent_many:
  assumes "0 < s" and "delimited rest" and "1 < length (digitsOf s)"
  shows "scanNumber ((hd (digitsOf s) # 46 # tl (digitsOf s)
             @ 101 # (if x < 0 then 45 else 43) # digitsOf (nat \<bar>x\<bar>)) @ rest)
           = Some (s, x - int (length (digitsOf s) - 1), rest)"
proof -
  let ?ds = "digitsOf s"
  let ?tail = "101 # (if x < 0 then 45 else 43) # digitsOf (nat \<bar>x\<bar>) @ rest"
  have hdig: "isDigit (hd ?ds)"
    by (rule digitsOf_digits [of _ s]) (simp add: digitsOf_nonempty)
  have tw: "takeWhile isDigit (hd ?ds # 46 # tl ?ds @ ?tail) = [hd ?ds]"
    and dw: "dropWhile isDigit (hd ?ds # 46 # tl ?ds @ ?tail) = 46 # tl ?ds @ ?tail"
    using hdig by (simp_all add: isDigit_def)
  have tl: "tl ?ds \<noteq> []" using assms(3) by (cases ?ds) auto
  have fr: "fraction (46 # tl ?ds @ ?tail) = Some (tl ?ds, ?tail)"
    using tl by (intro fraction_some stops_e) (auto dest: list.set_sel(2) [OF digitsOf_nonempty] simp: digitsOf_digits)
  have ex: "exponent ?tail = Some (x, rest)"
    using exponent_some [OF delimited_stops [OF assms(2)]] by simp
  have v: "valueOf ([hd ?ds] @ tl ?ds) = s"
    by (simp add: digitsOf_nonempty valueOf_digitsOf)
  show ?thesis
    unfolding scanNumber_def Let_def
    using tw dw fr ex v by simp
qed

lemma scan_print:
  assumes s: "0 < s" and d: "delimited rest"
  shows "\<exists>M E z. scanNumber (printDecimal (digitsOf s) (int (length (digitsOf s)) + e) @ rest)
                    = Some (M, E, rest) \<and> M = s * 10 ^ z \<and> e = E + int z"
proof -
  let ?ds = "digitsOf s"
  let ?k = "length ?ds"
  let ?n = "int ?k + e"
  have k: "0 < ?k" by (simp add: digitsOf_nonempty)
  consider (integer) "int ?k \<le> ?n" "?n \<le> 21"
    | (point) "\<not> (int ?k \<le> ?n \<and> ?n \<le> 21)" "0 < ?n" "?n \<le> 21"
    | (small) "\<not> (int ?k \<le> ?n \<and> ?n \<le> 21)" "\<not> (0 < ?n \<and> ?n \<le> 21)" "- 6 < ?n" "?n \<le> 0"
    | (expo) "\<not> (int ?k \<le> ?n \<and> ?n \<le> 21)" "\<not> (0 < ?n \<and> ?n \<le> 21)" "\<not> (- 6 < ?n \<and> ?n \<le> 0)"
    by blast
  then show ?thesis
  proof cases
    case integer
    then have p: "printDecimal ?ds ?n = ?ds @ replicate (nat e) 48"
      by (simp only: printDecimal_def) simp
    from integer have "0 \<le> e" by simp
    then show ?thesis
      using scan_integer [OF s d, of "nat e"] by (simp only: p) auto
  next
    case point
    then have lt: "nat ?n < ?k" by linarith
    from point have p: "printDecimal ?ds ?n = take (nat ?n) ?ds @ 46 # drop (nat ?n) ?ds"
      by (simp only: printDecimal_def if_False if_True simp_thms)
    have pos: "0 < nat ?n" using point by simp
    have "e = - int (?k - nat ?n) + int 0" using lt point by simp
    then show ?thesis
      using scan_point [OF s d pos lt] by (simp only: p) (metis mult.right_neutral power_0)
  next
    case small
    then have p: "printDecimal ?ds ?n = 48 # 46 # replicate (nat (- ?n)) 48 @ ?ds"
      by (simp only: printDecimal_def if_False if_True simp_thms)
    have "e = - int (nat (- ?n) + ?k) + int 0" using small by simp
    then show ?thesis
      using scan_small [OF s d, of "nat (- ?n)"]
      by (simp only: p) (metis mult.right_neutral power_0)
  next
    case expo
    let ?x = "?n - 1"
    show ?thesis
    proof (cases "?k = 1")
      case True
      with expo have p: "printDecimal ?ds ?n
          = ?ds @ 101 # (if ?x < 0 then 45 else 43) # digitsOf (nat \<bar>?x\<bar>)"
        by (simp only: printDecimal_def if_False if_True simp_thms)
      have "e = ?x + int 0" using True by simp
      then show ?thesis
        using scan_exponent_one [OF s d True, of ?x]
        by (simp only: p) (metis mult.right_neutral power_0)
    next
      case False
      with k have many: "1 < ?k" by linarith
      from False expo have p: "printDecimal ?ds ?n
          = hd ?ds # 46 # tl ?ds @ 101 # (if ?x < 0 then 45 else 43) # digitsOf (nat \<bar>?x\<bar>)"
        by (simp only: printDecimal_def if_False if_True simp_thms append_Cons)
      have "e = (?x - int (?k - 1)) + int 0" using many by simp
      then show ?thesis
        using scan_exponent_many [OF s d many, of ?x]
        by (simp only: p) (metis mult.right_neutral power_0)
    qed
  qed
qed

lemma printDecimal_head:
  assumes "ds \<noteq> []" and "\<forall>c\<in>set ds. isDigit c"
  shows "\<exists>c t. printDecimal ds n = c # t \<and> isDigit c"
proof -
  obtain a as where ds: "ds = a # as" using assms(1) by (cases ds) auto
  with assms(2) have a: "isDigit a" by simp
  have t: "0 < n \<Longrightarrow> take (nat n) (a # as) = a # take (nat n - 1) as"
    by (cases "nat n") simp_all
  show ?thesis
    using a t by (auto simp: printDecimal_def ds isDigit_zero)
qed

lemma finiteNumber_shift:
  assumes "m \<noteq> 0" and "\<not> 10 dvd m"
  shows "finiteNumber (m * 10 ^ z) E = Finite m (E + int z)"
  using assms by (simp add: finiteNumber_def normalise_shift normalise_canonical)

text \<open>
  Reading the text of a finite number gives the number back, whatever text that
  cannot continue a number follows.
\<close>

lemma parseNumber_print:
  assumes c: "canonical (Finite m e)" and d: "delimited rest"
  shows "parseNumber (numberToString (Finite m e) @ rest) = Some (Finite m e, rest)"
proof (cases "m = 0")
  case True
  with c have e: "e = 0" by simp
  have "takeWhile isDigit ([48] @ rest) = [48]" and "dropWhile isDigit ([48] @ rest) = rest"
    using span_digits [of "[48]" rest] delimited_stops [OF d] by (simp_all add: isDigit_zero)
  then have "scanNumber (48 # rest) = Some (0, 0, rest)"
    by (simp add: scanNumber_def Let_def fraction_none [OF d] exponent_none [OF d] valueOf_def)
  then show ?thesis
    using True e by (simp add: parseNumber_def normalise_zero finiteNumber_def)
next
  case False
  with c have nd: "\<not> 10 dvd m" by simp
  let ?s = "nat \<bar>m\<bar>"
  have s: "0 < ?s" using False by simp
  let ?text = "printDecimal (digitsOf ?s) (int (length (digitsOf ?s)) + e)"
  obtain M E z where scan: "scanNumber (?text @ rest) = Some (M, E, rest)"
    and M: "M = ?s * 10 ^ z" and E: "e = E + int z"
    using scan_print [OF s d, of e] by blast
  obtain a t where tx: "?text = a # t" and a: "isDigit a"
    using printDecimal_head [of "digitsOf ?s"] digitsOf_nonempty digitsOf_digits by blast
  have a45: "a \<noteq> 45" using a by (auto simp: isDigit_def)
  have n: "normalise m e = (m, e)" using False nd by (rule normalise_canonical)
  show ?thesis
  proof (cases "m < 0")
    case True
    have "- int M = m * 10 ^ z" using M True by simp
    then have "finiteNumber (- int M) E = Finite m e"
      using finiteNumber_shift [OF False nd, of z E] E by simp
    then show ?thesis
      using True False n scan by (simp add: parseNumber_def)
  next
    case pos: False
    have "int M = m * 10 ^ z" using M pos by simp
    then have f: "finiteNumber (int M) E = Finite m e"
      using finiteNumber_shift [OF False nd, of z E] E by simp
    have "parseNumber (?text @ rest) = Some (Finite m e, rest)"
      using scan f a45 tx by (simp add: parseNumber_def)
    then show ?thesis
      using pos False n by simp
  qed
qed

subsection \<open>Reading what QuoteJSONString writes\<close>

lemma hexValue_hexDigit: "d < 16 \<Longrightarrow> hexValue (hexDigit d) = Some d"
  by (simp add: hexValue_def hexDigit_def)

lemma hex_digits:
  assumes "c < 65536"
  shows "((c div 4096 mod 16 * 16 + c div 256 mod 16) * 16 + c div 16 mod 16) * 16 + c mod 16 = (c::nat)"
proof -
  have a: "c div 4096 mod 16 = c div 4096"
    using assms by (simp add: less_mult_imp_div_less)
  have b: "c div 4096 * 16 + c div 256 mod 16 = c div 256"
    using div_mult_mod_eq [of "c div 256" 16] by (simp add: div_mult2_eq [symmetric])
  have c: "c div 256 * 16 + c div 16 mod 16 = c div 16"
    using div_mult_mod_eq [of "c div 16" 16] by (simp add: div_mult2_eq [symmetric])
  have d: "c div 16 * 16 + c mod 16 = c"
    using div_mult_mod_eq [of c 16] by simp
  show ?thesis by (simp only: a b c d)
qed

lemma hexUnit_hex4:
  assumes "c < 65536"
  shows "hexUnit (hexDigit (c div 4096 mod 16)) (hexDigit (c div 256 mod 16))
           (hexDigit (c div 16 mod 16)) (hexDigit (c mod 16)) = Some c"
  using hex_digits [OF assms]
  by (simp only: hexUnit_def hexValue_hexDigit mod_less_divisor zero_less_numeral
        prod.case option.case)

lemma parseChars_unicodeEscape:
  assumes "c < 65536"
  shows "parseChars (unicodeEscape c @ t) = map_option (\<lambda>(s, rest). (c # s, rest)) (parseChars t)"
  using hexUnit_hex4 [OF assms] by (simp add: unicodeEscape_def hex4_def)

lemma parseChars_raw:
  assumes "32 \<le> c" and "c \<noteq> 34" and "c \<noteq> 92"
  shows "parseChars (c # t) = map_option (\<lambda>(s, rest). (c # s, rest)) (parseChars t)"
  using assms by simp

lemma parseChars_escapeUnit:
  "parseChars (escapeUnit c @ t) = map_option (\<lambda>(s, rest). (c # s, rest)) (parseChars t)"
proof (cases "c < 32")
  case True
  then have "c < 65536" by simp
  then show ?thesis
    using parseChars_unicodeEscape [of c t]
    by (simp add: escapeUnit_def unescape_def)
next
  case False
  then show ?thesis
    by (simp add: escapeUnit_def unescape_def)
qed

declare parseChars.simps [simp del]

text \<open>
  Reading a quoted string gives the string back: every sequence of code units, with
  its control characters, quotes, backslashes and lone surrogates.
\<close>

lemma parseChars_quoteUnits: "parseChars (quoteUnits s @ 34 # rest) = Some (s, rest)"
proof (induction s rule: quoteUnits.induct)
  case 1
  show ?case by (simp add: parseChars.simps)
next
  case (2 c)
  have base: "parseChars (34 # rest) = Some ([], rest)" by (simp add: parseChars.simps)
  show ?case
  proof (cases "isLeading c \<or> isTrailing c")
    case True
    then have "c < 65536" by (auto simp: isLeading_def isTrailing_def)
    with True base show ?thesis by (simp add: parseChars_unicodeEscape)
  next
    case False
    with base show ?thesis by (simp add: parseChars_escapeUnit)
  qed
next
  case (3 c d cs)
  show ?case
  proof (cases "isLeading c \<and> isTrailing d")
    case True
    then have c: "32 \<le> c" "c \<noteq> 34" "c \<noteq> 92" and d: "32 \<le> d" "d \<noteq> 34" "d \<noteq> 92"
      by (auto simp: isLeading_def isTrailing_def)
    from True "3.IH"(1) show ?thesis
      by (simp add: parseChars_raw [OF c] parseChars_raw [OF d])
  next
    case False
    show ?thesis
    proof (cases "isLeading c \<or> isTrailing c")
      case True
      then have "c < 65536" by (auto simp: isLeading_def isTrailing_def)
      with True False "3.IH"(2) show ?thesis by (auto simp: parseChars_unicodeEscape)
    next
      case nosur: False
      with False "3.IH"(3) show ?thesis by (auto simp: parseChars_escapeUnit)
    qed
  qed
qed

subsection \<open>The tokens of what JSON.stringify writes\<close>

declare tokenize.simps [simp del]

lemma prepend_prepend: "prepend xs (prepend ys z) = prepend (xs @ ys) z"
  by (cases z) (simp_all add: prepend_def)

lemma prepend_Nil: "prepend [] z = z"
  by (cases z) (simp_all add: prepend_def)

lemma prepend_Some: "prepend ts (Some us) = Some (ts @ us)"
  by (simp add: prepend_def)

lemma prepend_Cons: "map_option ((#) x) z = prepend [x] z"
  by (cases z) (simp_all add: prepend_def)

lemma tokenize_LBrace: "tokenize (123 # cs) = prepend [LBrace] (tokenize cs)"
  by (simp add: tokenize.simps prepend_Cons)

lemma tokenize_RBrace: "tokenize (125 # cs) = prepend [RBrace] (tokenize cs)"
  by (simp add: tokenize.simps prepend_Cons)

lemma tokenize_LBracket: "tokenize (91 # cs) = prepend [LBracket] (tokenize cs)"
  by (simp add: tokenize.simps prepend_Cons)

lemma tokenize_RBracket: "tokenize (93 # cs) = prepend [RBracket] (tokenize cs)"
  by (simp add: tokenize.simps prepend_Cons)

lemma tokenize_Colon: "tokenize (58 # cs) = prepend [Colon] (tokenize cs)"
  by (simp add: tokenize.simps prepend_Cons)

lemma tokenize_Comma: "tokenize (44 # cs) = prepend [Comma] (tokenize cs)"
  by (simp add: tokenize.simps prepend_Cons)

lemma tokenize_null: "tokenize ([110, 117, 108, 108] @ rest) = prepend [TNull] (tokenize rest)"
  by (simp add: tokenize.simps isDigit_def prepend_Cons)

lemma tokenize_true: "tokenize ([116, 114, 117, 101] @ rest) = prepend [TTrue] (tokenize rest)"
  by (simp add: tokenize.simps isDigit_def prepend_Cons)

lemma tokenize_false: "tokenize ([102, 97, 108, 115, 101] @ rest) = prepend [TFalse] (tokenize rest)"
  by (simp add: tokenize.simps isDigit_def prepend_Cons)

lemma tokenize_string: "tokenize (quoteJSONString s @ rest) = prepend [TString s] (tokenize rest)"
  by (simp add: quoteJSONString_def tokenize.simps parseChars_quoteUnits prepend_Cons)

lemma numberToString_head:
  "\<exists>c t. numberToString (Finite m e) = c # t \<and> (c = 45 \<or> isDigit c)"
proof -
  obtain s x where n: "normalise m e = (s, x)" by (cases "normalise m e")
  show ?thesis
  proof (cases "s = 0")
    case True
    with n show ?thesis by (simp add: isDigit_zero)
  next
    case False
    obtain c t where p: "printDecimal (digitsOf (nat \<bar>s\<bar>)) (int (length (digitsOf (nat \<bar>s\<bar>))) + x) = c # t"
      and c: "isDigit c"
      using printDecimal_head [of "digitsOf (nat \<bar>s\<bar>)"] digitsOf_nonempty digitsOf_digits by blast
    with n False show ?thesis by simp
  qed
qed

lemma tokenize_number:
  assumes "canonical (Finite m e)" and "delimited rest"
  shows "tokenize (numberToString (Finite m e) @ rest) = prepend [TNumber (Finite m e)] (tokenize rest)"
proof -
  obtain c t where h: "numberToString (Finite m e) = c # t" and c: "c = 45 \<or> isDigit c"
    using numberToString_head by blast
  have p: "parseNumber (c # t @ rest) = Some (Finite m e, rest)"
    using parseNumber_print [OF assms] h by simp
  from c have n: "\<not> (c = 32 \<or> c = 9 \<or> c = 10 \<or> c = 13)" "c \<noteq> 123" "c \<noteq> 125" "c \<noteq> 91" "c \<noteq> 93"
    "c \<noteq> 58" "c \<noteq> 44" "c \<noteq> 34"
    by (auto simp: isDigit_def)
  have "tokenize (c # t @ rest) = prepend [TNumber (Finite m e)] (tokenize rest)"
    by (subst tokenize.simps(2)) (simp only: n c p if_False if_True option.case prod.case prepend_Cons)
  then show ?thesis by (simp only: h append_Cons)
qed

lemma delimited_more: "delimited (stringifyMore vs @ 93 # rest)"
  by (cases vs) (simp_all add: delimited_def isDigit_def)

lemma delimited_moreMembers: "delimited (stringifyMoreMembers ms @ 125 # rest)"
  by (cases ms) (auto simp: delimited_def isDigit_def)

lemma delimited_comma: "delimited (44 # rest)"
  by (simp add: delimited_def isDigit_def)

lemma tokenize_stringify:
  "canonicalValue v \<Longrightarrow> delimited rest \<Longrightarrow>
     tokenize (stringify v @ rest) = prepend (tokens v) (tokenize rest)"
  and tokenize_stringifyMore:
  "\<forall>v\<in>set vs. canonicalValue v \<Longrightarrow> delimited rest \<Longrightarrow>
     tokenize (stringifyMore vs @ rest) = prepend (tokensMore vs) (tokenize rest)"
  and tokenize_stringifyMoreMembers:
  "\<forall>m\<in>set ms. canonicalValue (snd m) \<Longrightarrow> delimited rest \<Longrightarrow>
     tokenize (stringifyMoreMembers ms @ rest) = prepend (tokensMoreMembers ms) (tokenize rest)"
proof (induction v and vs and ms arbitrary: rest and rest and rest
    rule: stringify_stringifyMore_stringifyMoreMembers.induct)
  case 1
  show ?case using tokenize_null [of rest] by (simp add: prepend_prepend)
next
  case (2 b)
  show ?case using tokenize_true [of rest] tokenize_false [of rest] by (simp add: prepend_prepend)
next
  case (3 n)
  show ?case
  proof (cases n)
    case (Finite m e)
    with 3 show ?thesis using tokenize_number [of m e rest] by (simp add: prepend_prepend)
  next
    case NaN
    then show ?thesis using tokenize_null [of rest] by (simp add: prepend_prepend)
  next
    case PosInfinity
    then show ?thesis using tokenize_null [of rest] by (simp add: prepend_prepend)
  next
    case NegInfinity
    then show ?thesis using tokenize_null [of rest] by (simp add: prepend_prepend)
  qed
next
  case (4 s)
  show ?case using tokenize_string [of s rest] by (simp add: prepend_prepend)
next
  case 5
  show ?case by (simp add: tokenize_LBracket tokenize_RBracket prepend_prepend)
next
  case (6 v vs)
  have "tokenize (stringify v @ stringifyMore vs @ 93 # rest)
          = prepend (tokens v) (tokenize (stringifyMore vs @ 93 # rest))"
    using "6.IH"(1) [of "stringifyMore vs @ 93 # rest"] "6.prems" delimited_more by simp
  also have "tokenize (stringifyMore vs @ 93 # rest)
          = prepend (tokensMore vs) (tokenize (93 # rest))"
    using "6.IH"(2) [of "93 # rest"] "6.prems" delimited_more [of "[]" rest] by simp
  finally show ?case
    by (simp add: tokenize_LBracket tokenize_RBracket prepend_prepend)
next
  case 7
  show ?case by (simp add: tokenize_LBrace tokenize_RBrace prepend_prepend)
next
  case (8 k v ms)
  have "tokenize (stringify v @ stringifyMoreMembers ms @ 125 # rest)
          = prepend (tokens v) (tokenize (stringifyMoreMembers ms @ 125 # rest))"
    using "8.IH"(1) [of "stringifyMoreMembers ms @ 125 # rest"] "8.prems" delimited_moreMembers
    by simp
  also have "tokenize (stringifyMoreMembers ms @ 125 # rest)
          = prepend (tokensMoreMembers ms) (tokenize (125 # rest))"
    using "8.IH"(2) [of "125 # rest"] "8.prems" delimited_moreMembers [of "[]" rest] by simp
  finally show ?case
    using tokenize_string [of k "58 # stringify v @ stringifyMoreMembers ms @ 125 # rest"]
    by (simp add: tokenize_LBrace tokenize_RBrace tokenize_Colon prepend_prepend)
next
  case 9
  show ?case by (simp add: prepend_Nil)
next
  case (10 v vs)
  have d: "delimited (stringifyMore vs @ rest)"
    using "10.prems"(2) by (cases vs) (simp_all add: delimited_comma)
  have "tokenize (stringify v @ stringifyMore vs @ rest)
          = prepend (tokens v) (tokenize (stringifyMore vs @ rest))"
    using "10.IH"(1) [OF _ d] "10.prems" by simp
  also have "tokenize (stringifyMore vs @ rest) = prepend (tokensMore vs) (tokenize rest)"
    using "10.IH"(2) "10.prems" by simp
  finally show ?case
    by (simp add: tokenize_Comma prepend_prepend)
next
  case 11
  show ?case by (simp add: prepend_Nil)
next
  case (12 k v ms)
  have d: "delimited (stringifyMoreMembers ms @ rest)"
    using "12.prems"(2) by (cases ms) (auto simp: delimited_comma)
  have "tokenize (stringify v @ stringifyMoreMembers ms @ rest)
          = prepend (tokens v) (tokenize (stringifyMoreMembers ms @ rest))"
    using "12.IH"(1) [OF _ d] "12.prems" by simp
  also have "tokenize (stringifyMoreMembers ms @ rest)
          = prepend (tokensMoreMembers ms) (tokenize rest)"
    using "12.IH"(2) "12.prems" by simp
  finally show ?case
    using tokenize_string [of k "58 # stringify v @ stringifyMoreMembers ms @ rest"]
    by (simp add: tokenize_Comma tokenize_Colon prepend_prepend)
qed

subsection \<open>JSON.parse after JSON.stringify\<close>

lemma tokens_head:
  "\<exists>t r. tokens v = t # r \<and> t \<noteq> RBracket \<and> t \<noteq> RBrace"
proof (cases v)
  case (JArray vs)
  then show ?thesis by (cases vs) simp_all
next
  case (JObject ms)
  then show ?thesis by (cases ms) auto
qed simp_all

lemma memberStart_member: "memberStart (TString k # Colon # ts) = Some (k, ts)"
  by (simp add: memberStart_def)

lemma parse_tokens:
  "parseTokens stk (tokens v @ ts) = afterValue (nullified v) stk ts"
  and parse_tokensMore:
  "afterValue u (InArray acc # stk) (tokensMore vs @ RBracket # ts)
     = afterValue (JArray (rev acc @ u # map nullified vs)) stk ts"
  and parse_tokensMoreMembers:
  "afterValue u (InObject macc k # stk) (tokensMoreMembers ms @ RBrace # ts)
     = afterValue (JObject (rev macc @ (k, u) # map (map_prod id nullified) ms)) stk ts"
proof (induction v and vs and ms arbitrary: stk ts and u acc stk ts and u macc k stk ts
    rule: tokens_tokensMore_tokensMoreMembers.induct)
  case (6 v vs)
  obtain t r where h: "tokens v = t # r" and t: "t \<noteq> RBracket"
    using tokens_head [of v] by blast
  have "parseTokens stk (LBracket # tokens v @ tokensMore vs @ RBracket # ts)
          = parseTokens (InArray [] # stk) (tokens v @ tokensMore vs @ RBracket # ts)"
    using t by (simp add: h)
  also have "\<dots> = afterValue (nullified v) (InArray [] # stk) (tokensMore vs @ RBracket # ts)"
    by (rule "6.IH"(1))
  also have "\<dots> = afterValue (JArray (rev [] @ nullified v # map nullified vs)) stk ts"
    by (rule "6.IH"(2))
  finally show ?case by simp
next
  case (8 k v ms)
  have "parseTokens stk (LBrace # TString k # Colon # tokens v @ tokensMoreMembers ms @ RBrace # ts)
          = parseTokens (InObject [] k # stk) (tokens v @ tokensMoreMembers ms @ RBrace # ts)"
    by (simp add: memberStart_member)
  also have "\<dots> = afterValue (nullified v) (InObject [] k # stk) (tokensMoreMembers ms @ RBrace # ts)"
    by (rule "8.IH"(1))
  also have "\<dots> = afterValue (JObject (rev [] @ (k, nullified v) # map (map_prod id nullified) ms)) stk ts"
    by (rule "8.IH"(2))
  finally show ?case by (simp add: memberStart_member id_def)
next
  case (10 v vs)
  have "afterValue u (InArray acc # stk) (Comma # tokens v @ tokensMore vs @ RBracket # ts)
          = parseTokens (InArray (u # acc) # stk) (tokens v @ tokensMore vs @ RBracket # ts)"
    by simp
  also have "\<dots> = afterValue (nullified v) (InArray (u # acc) # stk) (tokensMore vs @ RBracket # ts)"
    by (rule "10.IH"(1))
  also have "\<dots> = afterValue (JArray (rev (u # acc) @ nullified v # map nullified vs)) stk ts"
    by (rule "10.IH"(2))
  finally show ?case by simp
next
  case (12 k' v ms)
  have "afterValue u (InObject macc k # stk)
            (Comma # TString k' # Colon # tokens v @ tokensMoreMembers ms @ RBrace # ts)
          = parseTokens (InObject ((k, u) # macc) k' # stk)
              (tokens v @ tokensMoreMembers ms @ RBrace # ts)"
    by (simp add: memberStart_member)
  also have "\<dots> = afterValue (nullified v) (InObject ((k, u) # macc) k' # stk)
                        (tokensMoreMembers ms @ RBrace # ts)"
    by (rule "12.IH"(1))
  also have "\<dots> = afterValue
      (JObject (rev ((k, u) # macc) @ (k', nullified v) # map (map_prod id nullified) ms)) stk ts"
    by (rule "12.IH"(2))
  finally show ?case by (simp add: memberStart_member id_def)
qed simp_all

text \<open>
  Parsing the text of a value gives the value with \<^verbatim>\<open>null\<close> in place of every
  number that is not finite.
\<close>

lemma JSON_roundtrip:
  assumes "canonicalValue v"
  shows "JSON_parse (JSON_stringify v) = Some (nullified v)"
proof -
  have "delimited []" by (simp add: delimited_def)
  with assms have "tokenize (stringify v @ []) = prepend (tokens v) (tokenize [])"
    by (rule tokenize_stringify)
  then have "tokenize (stringify v) = Some (tokens v)"
    by (simp add: tokenize.simps prepend_Some)
  moreover have "parseTokens [] (tokens v @ []) = afterValue (nullified v) [] []"
    by (rule parse_tokens)
  ultimately show ?thesis
    by (simp add: JSON_parse_def JSON_stringify_def)
qed

subsection \<open>The round trip of an order packet\<close>

lemma canonical_objectOf:
  "canonicalValue (objectOf b) \<longleftrightarrow> canonical (quantity b) \<and> canonical (price b)"
  by (simp add: objectOf_def)

lemma nullified_objectOf:
  "nullified (objectOf b) =
     JObject [(unitsOf ''id'', JString (id' b)),
              (unitsOf ''pairId'', JString (pairId b)),
              (unitsOf ''quantity'', if isFinite (quantity b) then JNumber (quantity b) else JNull),
              (unitsOf ''price'', if isFinite (price b) then JNumber (price b) else JNull),
              (unitsOf ''invoice'', JString (invoice b))]"
  by (simp add: objectOf_def)

lemma fromRaw_toRaw:
  assumes "canonical (quantity b)" and "canonical (price b)"
  shows "fromRaw (toRaw (newOrderPacket b)) = Some \<lparr>body = nullified (objectOf b)\<rparr>"
  using assms JSON_roundtrip [of "objectOf b"]
  by (simp add: fromRaw_def toRaw_def newOrderPacket_def canonical_objectOf)

text \<open>
  C10, as amended. For every order body whose quantity and price are finite numbers
  (each held as its canonical decimal, which every finite number has: see
  \<open>canonical_finiteNumber\<close>), serialising the packet built from the body
  with \<^verbatim>\<open>toRaw\<close> and parsing the result with \<^verbatim>\<open>fromRaw\<close> succeeds and gives a
  packet equal to the first: the fields \<^verbatim>\<open>id\<close>, \<^verbatim>\<open>pairId\<close>, \<^verbatim>\<open>quantity\<close>,
  \<^verbatim>\<open>price\<close> and \<^verbatim>\<open>invoice\<close> of its body have the values of the body that was
  given. The strings are arbitrary sequences of code units. Numbers are compared as
  \<^verbatim>\<open>===\<close> compares them: the two zeros are equal.
\<close>

theorem orderPacket_roundtrip:
  assumes "isFinite (quantity b)" and "isFinite (price b)"
    and "canonical (quantity b)" and "canonical (price b)"
  shows "fromRaw (toRaw (newOrderPacket b)) = Some (newOrderPacket b)
       \<and> (\<exists>p. fromRaw (toRaw (newOrderPacket b)) = Some p
            \<and> property (body p) (unitsOf ''id'') = Some (JString (id' b))
            \<and> property (body p) (unitsOf ''pairId'') = Some (JString (pairId b))
            \<and> property (body p) (unitsOf ''quantity'') = Some (JNumber (quantity b))
            \<and> property (body p) (unitsOf ''price'') = Some (JNumber (price b))
            \<and> property (body p) (unitsOf ''invoice'') = Some (JString (invoice b)))"
proof -
  have n: "nullified (objectOf b) = objectOf b"
    using assms(1,2) by (simp add: nullified_objectOf) (simp add: objectOf_def)
  have r: "fromRaw (toRaw (newOrderPacket b)) = Some (newOrderPacket b)"
    using fromRaw_toRaw [OF assms(3,4)] n by (simp add: newOrderPacket_def)
  moreover have "property (body (newOrderPacket b)) (unitsOf ''id'') = Some (JString (id' b))"
    "property (body (newOrderPacket b)) (unitsOf ''pairId'') = Some (JString (pairId b))"
    "property (body (newOrderPacket b)) (unitsOf ''quantity'') = Some (JNumber (quantity b))"
    "property (body (newOrderPacket b)) (unitsOf ''price'') = Some (JNumber (price b))"
    "property (body (newOrderPacket b)) (unitsOf ''invoice'') = Some (JString (invoice b))"
    by (simp_all add: newOrderPacket_def objectOf_def unitsOf_def)
  ultimately show ?thesis by simp
qed

text \<open>
  The amended C10 at the order \<^verbatim>\<open>o1\<close> of 1.5 \<^verbatim>\<open>LTC/BTC\<close> at the price 0.0005
  with the invoice \<^verbatim>\<open>lnbc1\<close>.
\<close>

theorem orderPacket_roundtrip_witness:
  "isFinite (quantity exampleBody) \<and> isFinite (price exampleBody)
   \<and> canonical (quantity exampleBody) \<and> canonical (price exampleBody)
   \<and> fromRaw (toRaw (newOrderPacket exampleBody)) = Some (newOrderPacket exampleBody)
   \<and> (\<exists>p. fromRaw (toRaw (newOrderPacket exampleBody)) = Some p
        \<and> property (body p) (unitsOf ''id'') = Some (JString (unitsOf ''o1''))
        \<and> property (body p) (unitsOf ''pairId'') = Some (JString (unitsOf ''LTC/BTC''))
        \<and> property (body p) (unitsOf ''quantity'') = Some (JNumber (Finite 15 (- 1)))
        \<and> property (body p) (unitsOf ''price'') = Some (JNumber (Finite 5 (- 4)))
        \<and> property (body p) (unitsOf ''invoice'') = Some (JString (unitsOf ''lnbc1'')))"
proof -
  have f: "isFinite (quantity exampleBody)" "isFinite (price exampleBody)"
    and c: "canonical (quantity exampleBody)" "canonical (price exampleBody)"
    by (simp_all add: exampleBody_def)
  have e: "id' exampleBody = unitsOf ''o1''" "pairId exampleBody = unitsOf ''LTC/BTC''"
    "quantity exampleBody = Finite 15 (- 1)" "price exampleBody = Finite 5 (- 4)"
    "invoice exampleBody = unitsOf ''lnbc1''"
    by (simp_all add: exampleBody_def)
  show ?thesis
    using f c orderPacket_roundtrip [OF f c] unfolding e by blast
qed

text \<open>
  C10 as stated fails on a body whose price is \<^verbatim>\<open>Infinity\<close>, which is a
  \<^verbatim>\<open>number\<close>: \<^verbatim>\<open>JSON.stringify\<close> writes \<^verbatim>\<open>null\<close> for it, and the packet that
  \<^verbatim>\<open>fromRaw\<close> makes of the text has the price \<^verbatim>\<open>null\<close>. The same holds for
  \<^verbatim>\<open>NaN\<close> and \<^verbatim>\<open>-Infinity\<close>, and for the quantity.
\<close>

theorem orderPacket_infinity_counterexample:
  "fromRaw (toRaw (newOrderPacket (exampleBody\<lparr>price := PosInfinity\<rparr>)))
     = Some \<lparr>body = JObject [(unitsOf ''id'', JString (unitsOf ''o1'')),
                             (unitsOf ''pairId'', JString (unitsOf ''LTC/BTC'')),
                             (unitsOf ''quantity'', JNumber (Finite 15 (- 1))),
                             (unitsOf ''price'', JNull),
                             (unitsOf ''invoice'', JString (unitsOf ''lnbc1''))]\<rparr>
   \<and> property (JObject [(unitsOf ''id'', JString (unitsOf ''o1'')),
                        (unitsOf ''pairId'', JString (unitsOf ''LTC/BTC'')),
                        (unitsOf ''quantity'', JNumber (Finite 15 (- 1))),
                        (unitsOf ''price'', JNull),
                        (unitsOf ''invoice'', JString (unitsOf ''lnbc1''))])
         (unitsOf ''price'') = Some JNull
   \<and> Some JNull \<noteq> Some (JNumber (price (exampleBody\<lparr>price := PosInfinity\<rparr>)))"
proof -
  have "fromRaw (toRaw (newOrderPacket (exampleBody\<lparr>price := PosInfinity\<rparr>)))
          = Some \<lparr>body = nullified (objectOf (exampleBody\<lparr>price := PosInfinity\<rparr>))\<rparr>"
    by (rule fromRaw_toRaw) (simp_all add: exampleBody_def)
  then show ?thesis
    by (simp add: nullified_objectOf exampleBody_def unitsOf_def)
qed

end
